theory Spec2Isabelle
  imports Complex_Main "HOL-Library.AList"
begin

section \<open>Lifecycle state machine (core/state\_machine.py)\<close>

datatype AssetState =
  UNREGISTERED | RFID_VERIFIED | SEQ_BOUND | XRF_VERIFIED | SLOT_BOUND | STORED

datatype EventType =
  RFID_READ | SEQ_ASSIGNED | XRF_REPORT_ACCEPTED | SLOT_ASSIGNED | STORAGE_CONFIRMED
  | SLOT_MOTION | TAMPER

text \<open>The \<open>.value\<close> of the two string enums.\<close>

fun state_value :: "AssetState \<Rightarrow> string" where
  "state_value UNREGISTERED = ''UNREGISTERED''"
| "state_value RFID_VERIFIED = ''RFID_VERIFIED''"
| "state_value SEQ_BOUND = ''SEQ_BOUND''"
| "state_value XRF_VERIFIED = ''XRF_VERIFIED''"
| "state_value SLOT_BOUND = ''SLOT_BOUND''"
| "state_value STORED = ''STORED''"

fun event_value :: "EventType \<Rightarrow> string" where
  "event_value RFID_READ = ''RFID_READ''"
| "event_value SEQ_ASSIGNED = ''SEQ_ASSIGNED''"
| "event_value XRF_REPORT_ACCEPTED = ''XRF_REPORT_ACCEPTED''"
| "event_value SLOT_ASSIGNED = ''SLOT_ASSIGNED''"
| "event_value STORAGE_CONFIRMED = ''STORAGE_CONFIRMED''"
| "event_value SLOT_MOTION = ''SLOT_MOTION''"
| "event_value TAMPER = ''TAMPER''"

text \<open>The dictionary \<open>_ALLOWED\<close>, in the order of the source, and the set
  \<open>_NON_TRANSITION_EVENTS\<close>.\<close>

definition ALLOWED :: "((AssetState \<times> EventType) \<times> AssetState) list" where
  "ALLOWED =
    [((UNREGISTERED, RFID_READ), RFID_VERIFIED),
     ((RFID_VERIFIED, SEQ_ASSIGNED), SEQ_BOUND),
     ((SEQ_BOUND, XRF_REPORT_ACCEPTED), XRF_VERIFIED),
     ((XRF_VERIFIED, SLOT_ASSIGNED), SLOT_BOUND),
     ((SLOT_BOUND, STORAGE_CONFIRMED), STORED)]"

definition NON_TRANSITION_EVENTS :: "EventType list" where
  "NON_TRANSITION_EVENTS = [SLOT_MOTION, TAMPER]"

record TransitionResult =
  accepted :: bool
  tr_prev_state :: AssetState
  tr_event :: EventType
  tr_next_state :: AssetState
  tr_reason :: string

text \<open>\<open>AssetLifecycleFSM.apply\<close>: the object's only field is the state, so the method
  takes the state and returns the result together with the state it leaves behind.\<close>

definition fsm_apply :: "AssetState \<Rightarrow> EventType \<Rightarrow> TransitionResult \<times> AssetState" where
  "fsm_apply prev ev =
    (if ev \<in> set NON_TRANSITION_EVENTS then
       (\<lparr>accepted = True, tr_prev_state = prev, tr_event = ev, tr_next_state = prev,
         tr_reason = ''NON_TRANSITION_EVENT_ACCEPTED''\<rparr>, prev)
     else
       (case map_of ALLOWED (prev, ev) of
          None \<Rightarrow>
            (\<lparr>accepted = False, tr_prev_state = prev, tr_event = ev, tr_next_state = prev,
              tr_reason = ''ILLEGAL_TRANSITION:'' @ state_value prev @ ''->'' @ event_value ev\<rparr>,
             prev)
        | Some nxt \<Rightarrow>
            (\<lparr>accepted = True, tr_prev_state = prev, tr_event = ev, tr_next_state = nxt,
              tr_reason = ''STATE_ADVANCED''\<rparr>, nxt)))"

definition can_apply :: "AssetState \<Rightarrow> EventType \<Rightarrow> bool" where
  "can_apply s ev =
    (if ev \<in> set NON_TRANSITION_EVENTS then True else map_of ALLOWED (s, ev) \<noteq> None)"


section \<open>Sequence-identity manager (core/seqid\_manager.py)\<close>

text \<open>
  A \<open>datetime\<close> is modelled as the number of microseconds since 0001-01-01T00:00:00 UTC
  (all datetimes are taken to be timezone-aware, as \<open>now_utc\<close> produces them), and a
  \<open>timedelta\<close> as a number of microseconds. \<open>MAX_DT\<close> is \<open>datetime.max\<close>: adding a
  timedelta that leaves the range \<open>0..MAX_DT\<close> raises \<open>OverflowError\<close>.
\<close>

type_synonym datetime = int

definition MAX_DT :: datetime where
  "MAX_DT = 315537897599999999"

datatype py_error = ValueError | OverflowError | TypeError

record SeqBinding =
  uid :: string
  seq_id :: int
  issued_at :: datetime
  expires_at :: datetime
  used :: bool

text \<open>The two dictionaries keep insertion order, as Python's do: association lists
  read with \<open>map_of\<close> and written with \<open>AList.update\<close>.\<close>

record SeqIdManager =
  counter :: int
  validity :: int
  by_uid :: "(string \<times> SeqBinding) list"
  by_seq :: "(int \<times> SeqBinding) list"

text \<open>\<open>SeqIdManager.__init__\<close>. \<open>timedelta(minutes=v)\<close> raises \<open>OverflowError\<close> when
  it is longer than 999999999 days.\<close>

definition SeqIdManager_init :: "int \<Rightarrow> int \<Rightarrow> py_error + SeqIdManager" where
  "SeqIdManager_init start_counter validity_minutes =
    (if start_counter < 1 then Inl ValueError
     else if validity_minutes < 1 then Inl ValueError
     else if validity_minutes div 1440 > 999999999 then Inl OverflowError
     else Inr \<lparr>counter = start_counter, validity = validity_minutes * 60000000,
               by_uid = [], by_seq = []\<rparr>)"

text \<open>
  \<open>str.strip()\<close> removes leading and trailing whitespace. A string is a list of code
  points below 256; the whitespace characters of Python in that range are 9 to 13,
  28 to 32, 133 and 160.
\<close>

definition is_space :: "char \<Rightarrow> bool" where
  "is_space c = ((of_char c :: nat) \<in> set [9, 10, 11, 12, 13, 28, 29, 30, 31, 32, 133, 160])"

definition strip :: "string \<Rightarrow> string" where
  "strip s = rev (dropWhile is_space (rev (dropWhile is_space s)))"

text \<open>
  Every method that defaults a time argument to \<open>self.now_utc()\<close> takes the optional
  argument and, as \<open>clk\<close>, the reading the wall clock would give at that moment.
\<close>

definition is_expired :: "SeqBinding \<Rightarrow> datetime option \<Rightarrow> datetime \<Rightarrow> bool" where
  "is_expired b now clk = ((case now of Some t \<Rightarrow> t | None \<Rightarrow> clk) > expires_at b)"

text \<open>The allocating part of \<open>issue\<close> (from \<open>seq = self._counter\<close> on). The counter is
  incremented before the expiry time is computed, so an \<open>OverflowError\<close> leaves the
  incremented counter behind.\<close>

definition allocate :: "SeqIdManager \<Rightarrow> string \<Rightarrow> datetime \<Rightarrow> (py_error + SeqBinding) \<times> SeqIdManager" where
  "allocate m u t0 =
    (let sq = counter m;
         m1 = m\<lparr>counter := counter m + 1\<rparr>
     in if t0 + validity m1 < 0 \<or> t0 + validity m1 > MAX_DT then (Inl OverflowError, m1)
        else
          (let binding = \<lparr>uid = u, seq_id = sq, issued_at = t0,
                          expires_at = t0 + validity m1, used = False\<rparr>
           in (Inr binding,
               m1\<lparr>by_uid := AList.update u binding (by_uid m1),
                   by_seq := AList.update sq binding (by_seq m1)\<rparr>)))"

definition issue :: "SeqIdManager \<Rightarrow> string \<Rightarrow> datetime option \<Rightarrow> datetime \<Rightarrow> (py_error + SeqBinding) \<times> SeqIdManager" where
  "issue m u issued clk =
    (if u = [] \<or> strip u = [] then (Inl ValueError, m)
     else
       (let t0 = (case issued of Some t \<Rightarrow> t | None \<Rightarrow> clk)
        in case map_of (by_uid m) u of
             Some existing \<Rightarrow>
               (if \<not> is_expired existing (Some t0) clk \<and> \<not> used existing
                then (Inr existing, m)
                else allocate m u t0)
           | None \<Rightarrow> allocate m u t0))"

definition get_by_uid :: "SeqIdManager \<Rightarrow> string \<Rightarrow> SeqBinding option" where
  "get_by_uid m u = map_of (by_uid m) u"

definition get_by_seq :: "SeqIdManager \<Rightarrow> int \<Rightarrow> SeqBinding option" where
  "get_by_seq m sq = map_of (by_seq m) sq"

text \<open>\<open>validate\<close> assigns to nothing; it returns the manager it was given, so that
  the absence of an effect can be stated.\<close>

definition validate :: "SeqIdManager \<Rightarrow> string \<Rightarrow> int \<Rightarrow> datetime option \<Rightarrow> datetime \<Rightarrow> string \<times> SeqIdManager" where
  "validate m u sq now clk =
    (let t = (case now of Some t' \<Rightarrow> t' | None \<Rightarrow> clk)
     in case map_of (by_uid m) u of
          None \<Rightarrow> (''NO_BINDING_FOR_UID'', m)
        | Some b \<Rightarrow>
            (if seq_id b \<noteq> sq then (''SEQ_MISMATCH'', m)
             else if is_expired b (Some t) clk then (''EXPIRED'', m)
             else if used b then (''ALREADY_USED'', m)
             else (''OK'', m)))"

definition mark_used :: "SeqIdManager \<Rightarrow> string \<Rightarrow> int \<Rightarrow> string \<times> SeqIdManager" where
  "mark_used m u sq =
    (case map_of (by_uid m) u of
       None \<Rightarrow> (''NOT_FOUND'', m)
     | Some b \<Rightarrow>
         (if seq_id b \<noteq> sq then (''SEQ_MISMATCH'', m)
          else
            (let used_binding = \<lparr>uid = uid b, seq_id = seq_id b, issued_at = issued_at b,
                                 expires_at = expires_at b, used = True\<rparr>
             in (''OK'', m\<lparr>by_uid := AList.update u used_binding (by_uid m),
                           by_seq := AList.update sq used_binding (by_seq m)\<rparr>))))"


section \<open>Enforcement engine (core/enforcement\_engine.py)\<close>

datatype Decision = ACCEPT | REJECT | ALERT

text \<open>A Python float, as far as the comparison \<open><\<close> sees it: a finite value, an
  infinity or NaN. Every comparison with NaN is false.\<close>

datatype pyfloat = Finite real | PosInf | NegInf | NaN

fun flt_less :: "pyfloat \<Rightarrow> pyfloat \<Rightarrow> bool" where
  "flt_less NaN _ = False"
| "flt_less _ NaN = False"
| "flt_less (Finite a) (Finite b) = (a < b)"
| "flt_less (Finite _) PosInf = True"
| "flt_less (Finite _) NegInf = False"
| "flt_less PosInf _ = False"
| "flt_less NegInf NegInf = False"
| "flt_less NegInf _ = True"

text \<open>The values stored in a \<open>details\<close> dictionary. \<open>DIso t\<close> stands for the string
  \<open>t.isoformat()\<close> of the datetime \<open>t\<close>.\<close>

datatype detail = DStr string | DInt int | DFloat pyfloat | DBool bool | DIso datetime

record EnforcementDecision =
  decision :: Decision
  reason :: string
  asset_id :: string
  prev_state :: AssetState
  next_state :: AssetState
  event :: EventType
  timestamp_utc :: string
  details :: "(string \<times> detail) list"

text \<open>The engine: the identity manager it was constructed with and one state-machine
  object per uid. A state-machine object has the state as its only field.\<close>

record Engine =
  seq :: SeqIdManager
  fsms :: "(string \<times> AssetState) list"

definition Engine_init :: "SeqIdManager \<Rightarrow> Engine" where
  "Engine_init seq_manager = \<lparr>seq = seq_manager, fsms = []\<rparr>"

text \<open>
  The readings of the wall clock that one handler call can make: \<open>iso_entry\<close> is what
  \<open>_now_iso()\<close> gives at \<open>t = ts_utc or self._now_iso()\<close>, \<open>dt_seq\<close> what \<open>now_utc()\<close>
  gives inside the identity manager, and \<open>iso_exit\<close> what \<open>_now_iso()\<close> gives when the
  decision record is built.
\<close>

record wall_clock =
  iso_entry :: string
  dt_seq :: datetime
  iso_exit :: string

text \<open>
  A value of a \<open>thresholds\<close> dictionary (\<open>Dict[str, Any]\<close>): \<open>None\<close>, a bool, an int, a
  float, a str, or an object of some other type that has no numeric conversion (a list,
  a dict), of which only the truth value matters. What \<open>float(s)\<close> and \<open>int(s)\<close> make of
  a str \<open>s\<close> is decided by Python's parsers; a str value carries the two outcomes with it,
  so that nothing is assumed about the parsers.
\<close>

datatype pyval =
    PNone
  | PBool bool
  | PInt int
  | PFloat pyfloat
  | PStr string "py_error + pyfloat" "py_error + int"
  | POther bool

text \<open>\<open>float(v)\<close>. An int too large for a double raises \<open>OverflowError\<close>; otherwise the
  double nearest to an int is modelled by the int itself, as every finite float is by
  the real number it denotes.\<close>

fun py_float :: "pyval \<Rightarrow> py_error + pyfloat" where
  "py_float PNone = Inl TypeError"
| "py_float (PBool b) = Inr (Finite (if b then 1 else 0))"
| "py_float (PInt i) =
     (if \<bar>i\<bar> \<ge> 2 ^ 1024 - 2 ^ 970 then Inl OverflowError else Inr (Finite (of_int i)))"
| "py_float (PFloat f) = Inr f"
| "py_float (PStr s as_float as_int) = as_float"
| "py_float (POther t) = Inl TypeError"

text \<open>\<open>int(v)\<close>: a finite float is truncated towards zero, NaN raises \<open>ValueError\<close> and
  an infinity \<open>OverflowError\<close>.\<close>

fun py_int :: "pyval \<Rightarrow> py_error + int" where
  "py_int PNone = Inl TypeError"
| "py_int (PBool b) = Inr (if b then 1 else 0)"
| "py_int (PInt i) = Inr i"
| "py_int (PFloat (Finite r)) = Inr (if 0 \<le> r then \<lfloor>r\<rfloor> else \<lceil>r\<rceil>)"
| "py_int (PFloat NaN) = Inl ValueError"
| "py_int (PFloat PosInf) = Inl OverflowError"
| "py_int (PFloat NegInf) = Inl OverflowError"
| "py_int (PStr s as_float as_int) = as_int"
| "py_int (POther t) = Inl TypeError"

text \<open>\<open>bool(v)\<close> raises for none of these values.\<close>

fun py_bool :: "pyval \<Rightarrow> bool" where
  "py_bool PNone = False"
| "py_bool (PBool b) = b"
| "py_bool (PInt i) = (i \<noteq> 0)"
| "py_bool (PFloat f) = (f \<noteq> Finite 0)"
| "py_bool (PStr s as_float as_int) = (s \<noteq> [])"
| "py_bool (POther t) = t"

text \<open>\<open>d.get(key, default)\<close>.\<close>

definition dict_get :: "(string \<times> pyval) list \<Rightarrow> string \<Rightarrow> pyval \<Rightarrow> pyval" where
  "dict_get d k dflt = (case map_of d k of None \<Rightarrow> dflt | Some v \<Rightarrow> v)"

text \<open>
  Lines 127 to 130 of the handler: \<open>th = thresholds or {}\<close>, then \<open>purity_min\<close>,
  \<open>scan_min\<close> and \<open>contact_required\<close> by \<open>float\<close>, \<open>int\<close> and \<open>bool\<close> of the three
  \<open>th.get\<close>, in this order: the first conversion that raises ends the call.
\<close>

definition convert_thresholds :: "(string \<times> pyval) list option \<Rightarrow> py_error + (pyfloat \<times> int \<times> bool)" where
  "convert_thresholds thresholds =
    (let th = (case thresholds of None \<Rightarrow> [] | Some d \<Rightarrow> d)
     in case py_float (dict_get th ''purity_min_percent'' (PFloat (Finite 99.0))) of
          Inl err \<Rightarrow> Inl err
        | Inr purity_min \<Rightarrow>
            (case py_int (dict_get th ''scan_duration_min_seconds'' (PInt 8)) of
               Inl err \<Rightarrow> Inl err
             | Inr scan_min \<Rightarrow>
                 Inr (purity_min, scan_min,
                      py_bool (dict_get th ''contact_required'' (PBool True)))))"

definition get_fsm :: "Engine \<Rightarrow> string \<Rightarrow> AssetState \<times> Engine" where
  "get_fsm e u =
    (case map_of (fsms e) u of
       None \<Rightarrow> (UNREGISTERED, e\<lparr>fsms := AList.update u UNREGISTERED (fsms e)\<rparr>)
     | Some s \<Rightarrow> (s, e))"

text \<open>Writing the state field of the state-machine object of \<open>u\<close>.\<close>

definition set_state :: "Engine \<Rightarrow> string \<Rightarrow> AssetState \<Rightarrow> Engine" where
  "set_state e u s = e\<lparr>fsms := AList.update u s (fsms e)\<rparr>"

definition ts_or_now :: "string option \<Rightarrow> wall_clock \<Rightarrow> string" where
  "ts_or_now ts_utc w =
    (case ts_utc of None \<Rightarrow> iso_entry w | Some s \<Rightarrow> if s = [] then iso_entry w else s)"

definition accept :: "string \<Rightarrow> TransitionResult \<Rightarrow> (string \<times> detail) list \<Rightarrow> wall_clock \<Rightarrow> EnforcementDecision" where
  "accept u tr dets w =
    \<lparr>decision = ACCEPT, reason = tr_reason tr, asset_id = u,
     prev_state = tr_prev_state tr, next_state = tr_next_state tr, event = tr_event tr,
     timestamp_utc = iso_exit w, details = dets\<rparr>"

definition reject :: "string \<Rightarrow> TransitionResult \<Rightarrow> string \<Rightarrow> (string \<times> detail) list \<Rightarrow> wall_clock \<Rightarrow> EnforcementDecision" where
  "reject u tr rsn dets w =
    \<lparr>decision = REJECT, reason = rsn, asset_id = u,
     prev_state = tr_prev_state tr, next_state = tr_next_state tr, event = tr_event tr,
     timestamp_utc = iso_exit w, details = dets\<rparr>"

definition reject_simple :: "string \<Rightarrow> AssetState \<Rightarrow> EventType \<Rightarrow> string \<Rightarrow> (string \<times> detail) list \<Rightarrow> wall_clock \<Rightarrow> EnforcementDecision" where
  "reject_simple u prev ev rsn dets w =
    \<lparr>decision = REJECT, reason = rsn, asset_id = u,
     prev_state = prev, next_state = prev, event = ev,
     timestamp_utc = iso_exit w, details = dets\<rparr>"

definition handle_rfid_read :: "Engine \<Rightarrow> string \<Rightarrow> string \<Rightarrow> string option \<Rightarrow> wall_clock \<Rightarrow> EnforcementDecision \<times> Engine" where
  "handle_rfid_read e u gateway_id ts_utc w =
    (let (s, e1) = get_fsm e u;
         t = ts_or_now ts_utc w;
         (tr, s') = fsm_apply s RFID_READ;
         e2 = set_state e1 u s'
     in if \<not> accepted tr
        then (reject u tr (tr_reason tr) [(''gateway_id'', DStr gateway_id)] w, e2)
        else (accept u tr [(''gateway_id'', DStr gateway_id)] w, e2))"

text \<open>\<open>handle_seq_request\<close> calls \<open>self.seq.issue(uid)\<close> with no time, and \<open>issue\<close>
  can raise: the exception leaves the handler, with the engine as it is then.\<close>

definition handle_seq_request :: "Engine \<Rightarrow> string \<Rightarrow> string option \<Rightarrow> wall_clock \<Rightarrow> (py_error + EnforcementDecision) \<times> Engine" where
  "handle_seq_request e u ts_utc w =
    (let (s, e1) = get_fsm e u;
         t = ts_or_now ts_utc w
     in if s \<noteq> RFID_VERIFIED
        then (Inr (reject_simple u s SEQ_ASSIGNED ''STATE_NOT_RFID_VERIFIED'' [(''ts'', DStr t)] w), e1)
        else
          (case issue (seq e1) u None (dt_seq w) of
             (Inl err, m') \<Rightarrow> (Inl err, e1\<lparr>seq := m'\<rparr>)
           | (Inr binding, m') \<Rightarrow>
               (let e2 = e1\<lparr>seq := m'\<rparr>;
                    (tr, s') = fsm_apply s SEQ_ASSIGNED;
                    e3 = set_state e2 u s'
                in if \<not> accepted tr
                   then (Inr (reject u tr (tr_reason tr)
                                [(''seq_id'', DInt (seq_id binding)),
                                 (''expires_at'', DIso (expires_at binding))] w), e3)
                   else (Inr \<lparr>decision = ACCEPT, reason = ''SEQ_ISSUED'', asset_id = u,
                              prev_state = tr_prev_state tr, next_state = tr_next_state tr,
                              event = SEQ_ASSIGNED, timestamp_utc = t,
                              details = [(''seq_id'', DInt (seq_id binding)),
                                         (''issued_at'', DIso (issued_at binding)),
                                         (''expires_at'', DIso (expires_at binding))]\<rparr>, e3))))"

text \<open>
  \<open>handle_xrf_report\<close>, with the engine recorded after each statement that can write to
  it, in program order: after \<open>_get_fsm\<close>, after \<open>fsm.apply\<close> and after
  \<open>self.seq.mark_used\<close>. \<open>self.seq.validate(uid, seq_id)\<close> is called with no time. An
  exception of a threshold conversion leaves the handler.
\<close>

definition handle_xrf_report_trace ::
  "Engine \<Rightarrow> string \<Rightarrow> int \<Rightarrow> pyfloat \<Rightarrow> int \<Rightarrow> bool \<Rightarrow> string \<Rightarrow> string option
   \<Rightarrow> (string \<times> pyval) list option \<Rightarrow> wall_clock
   \<Rightarrow> (py_error + EnforcementDecision) \<times> Engine list" where
  "handle_xrf_report_trace e u sq purity scan_duration_s contact_ok pc_id ts_utc thresholds w =
    (let (s, e1) = get_fsm e u;
         t = ts_or_now ts_utc w
     in if s \<noteq> SEQ_BOUND
        then (Inr (reject_simple u s XRF_REPORT_ACCEPTED ''STATE_NOT_SEQ_BOUND''
                     [(''pc_id'', DStr pc_id)] w), [e1])
        else
          (let seq_status = fst (validate (seq e1) u sq None (dt_seq w))
           in if seq_status \<noteq> ''OK''
              then (Inr (reject_simple u s XRF_REPORT_ACCEPTED (''SEQ_INVALID:'' @ seq_status)
                           [(''pc_id'', DStr pc_id), (''seq_id'', DInt sq)] w), [e1])
              else
                (case convert_thresholds thresholds of
                   Inl err \<Rightarrow> (Inl err, [e1])
                 | Inr (purity_min, scan_min, contact_req) \<Rightarrow>
                    if flt_less purity purity_min
                    then (Inr (reject_simple u s XRF_REPORT_ACCEPTED ''SANITY_FAIL:PURITY_TOO_LOW''
                            [(''purity'', DFloat purity), (''purity_min'', DFloat purity_min),
                             (''pc_id'', DStr pc_id)] w), [e1])
                    else if scan_duration_s < scan_min
                    then (Inr (reject_simple u s XRF_REPORT_ACCEPTED ''SANITY_FAIL:SCAN_TOO_SHORT''
                            [(''scan_duration_s'', DInt scan_duration_s),
                             (''scan_min'', DInt scan_min), (''pc_id'', DStr pc_id)] w), [e1])
                    else if contact_req \<and> \<not> contact_ok
                    then (Inr (reject_simple u s XRF_REPORT_ACCEPTED ''SANITY_FAIL:CONTACT_NOT_OK''
                            [(''contact_ok'', DBool contact_ok), (''pc_id'', DStr pc_id)] w), [e1])
                    else
                      (let (tr, s') = fsm_apply s XRF_REPORT_ACCEPTED;
                           e2 = set_state e1 u s'
                       in if \<not> accepted tr
                          then (Inr (reject u tr (tr_reason tr) [(''pc_id'', DStr pc_id)] w),
                                [e1, e2])
                          else
                            (let e3 = e2\<lparr>seq := snd (mark_used (seq e2) u sq)\<rparr>
                             in (Inr (accept u tr
                                   [(''pc_id'', DStr pc_id), (''seq_id'', DInt sq),
                                    (''purity'', DFloat purity),
                                    (''scan_duration_s'', DInt scan_duration_s),
                                    (''contact_ok'', DBool contact_ok)] w),
                                 [e1, e2, e3]))))))"

definition handle_xrf_report ::
  "Engine \<Rightarrow> string \<Rightarrow> int \<Rightarrow> pyfloat \<Rightarrow> int \<Rightarrow> bool \<Rightarrow> string \<Rightarrow> string option
   \<Rightarrow> (string \<times> pyval) list option \<Rightarrow> wall_clock
   \<Rightarrow> (py_error + EnforcementDecision) \<times> Engine" where
  "handle_xrf_report e u sq purity scan_duration_s contact_ok pc_id ts_utc thresholds w =
    (let (r, es) = handle_xrf_report_trace e u sq purity scan_duration_s contact_ok pc_id ts_utc
                     thresholds w
     in (r, last es))"

definition handle_slot_assigned :: "Engine \<Rightarrow> string \<Rightarrow> string \<Rightarrow> string option \<Rightarrow> wall_clock \<Rightarrow> EnforcementDecision \<times> Engine" where
  "handle_slot_assigned e u slot_id ts_utc w =
    (let (s, e1) = get_fsm e u;
         t = ts_or_now ts_utc w
     in if s \<noteq> XRF_VERIFIED
        then (reject_simple u s SLOT_ASSIGNED ''STATE_NOT_XRF_VERIFIED'' [(''slot_id'', DStr slot_id)] w, e1)
        else
          (let (tr, s') = fsm_apply s SLOT_ASSIGNED;
               e2 = set_state e1 u s'
           in if \<not> accepted tr
              then (reject u tr (tr_reason tr) [(''slot_id'', DStr slot_id)] w, e2)
              else (accept u tr [(''slot_id'', DStr slot_id)] w, e2)))"

definition handle_storage_confirmed :: "Engine \<Rightarrow> string \<Rightarrow> string \<Rightarrow> string option \<Rightarrow> wall_clock \<Rightarrow> EnforcementDecision \<times> Engine" where
  "handle_storage_confirmed e u slot_id ts_utc w =
    (let (s, e1) = get_fsm e u;
         t = ts_or_now ts_utc w
     in if s \<noteq> SLOT_BOUND
        then (reject_simple u s STORAGE_CONFIRMED ''STATE_NOT_SLOT_BOUND'' [(''slot_id'', DStr slot_id)] w, e1)
        else
          (let (tr, s') = fsm_apply s STORAGE_CONFIRMED;
               e2 = set_state e1 u s'
           in if \<not> accepted tr
              then (reject u tr (tr_reason tr) [(''slot_id'', DStr slot_id)] w, e2)
              else (accept u tr [(''slot_id'', DStr slot_id)] w, e2)))"

definition handle_slot_motion :: "Engine \<Rightarrow> string \<Rightarrow> string \<Rightarrow> string option \<Rightarrow> wall_clock \<Rightarrow> EnforcementDecision \<times> Engine" where
  "handle_slot_motion e u slot_id ts_utc w =
    (let (s, e1) = get_fsm e u;
         t = ts_or_now ts_utc w;
         (tr, s') = fsm_apply s SLOT_MOTION;
         e2 = set_state e1 u s'
     in (\<lparr>decision = ALERT, reason = ''SLOT_MOTION_DETECTED'', asset_id = u,
          prev_state = tr_prev_state tr, next_state = tr_next_state tr,
          event = SLOT_MOTION, timestamp_utc = t,
          details = [(''slot_id'', DStr slot_id)]\<rparr>, e2))"

text \<open>The state of an asset as the engine sees it: the state of its state-machine
  object, or \<open>UNREGISTERED\<close>, the state \<open>_get_fsm\<close> would create it in.\<close>

definition current_state :: "Engine \<Rightarrow> string \<Rightarrow> AssetState" where
  "current_state e u = (case map_of (fsms e) u of None \<Rightarrow> UNREGISTERED | Some s \<Rightarrow> s)"


subsection \<open>Sequences of calls\<close>

text \<open>One call of a public handler of the engine, with its arguments.\<close>

datatype op =
    RfidRead string string "string option"
  | SeqRequest string "string option"
  | XrfReport string int pyfloat int bool string "string option" "(string \<times> pyval) list option"
  | SlotAssigned string string "string option"
  | StorageConfirmed string string "string option"
  | SlotMotion string string "string option"

fun step :: "Engine \<Rightarrow> op \<Rightarrow> wall_clock \<Rightarrow> (py_error + EnforcementDecision) \<times> Engine" where
  "step e (RfidRead u g ts) w = (let (d, e') = handle_rfid_read e u g ts w in (Inr d, e'))"
| "step e (SeqRequest u ts) w = handle_seq_request e u ts w"
| "step e (XrfReport u sq p sd c pc ts th) w = handle_xrf_report e u sq p sd c pc ts th w"
| "step e (SlotAssigned u sl ts) w = (let (d, e') = handle_slot_assigned e u sl ts w in (Inr d, e'))"
| "step e (StorageConfirmed u sl ts) w =
     (let (d, e') = handle_storage_confirmed e u sl ts w in (Inr d, e'))"
| "step e (SlotMotion u sl ts) w = (let (d, e') = handle_slot_motion e u sl ts w in (Inr d, e'))"

text \<open>A caller that makes the calls one after the other, each with the clock readings
  of its moment, and goes on after an exception.\<close>

fun run :: "Engine \<Rightarrow> (op \<times> wall_clock) list \<Rightarrow> (py_error + EnforcementDecision) list \<times> Engine" where
  "run e [] = ([], e)"
| "run e ((c, w) # cs) =
     (let (r, e1) = step e c w; (rs, e2) = run e1 cs in (r # rs, e2))"

text \<open>The events of the decisions that are \<open>ACCEPT\<close> for asset \<open>u\<close>, in order.\<close>

fun accepted_events :: "string \<Rightarrow> (py_error + EnforcementDecision) list \<Rightarrow> EventType list" where
  "accepted_events u [] = []"
| "accepted_events u (Inl err # rs) = accepted_events u rs"
| "accepted_events u (Inr d # rs) =
     (if decision d = ACCEPT \<and> asset_id d = u then event d # accepted_events u rs
      else accepted_events u rs)"

definition happy_events :: "EventType list" where
  "happy_events = [RFID_READ, SEQ_ASSIGNED, XRF_REPORT_ACCEPTED, SLOT_ASSIGNED, STORAGE_CONFIRMED]"

definition happy_states :: "AssetState list" where
  "happy_states = [UNREGISTERED, RFID_VERIFIED, SEQ_BOUND, XRF_VERIFIED, SLOT_BOUND, STORED]"

text \<open>One call of a method of the identity manager, and a caller that makes such calls
  one after the other; \<open>allocated\<close> lists, in order, the identifiers of the bindings that
  \<open>issue\<close> newly allocated: those it returned that were not the binding already stored
  for the uid.\<close>

datatype mgr_op =
    Issue string "datetime option" datetime
  | Validate string int "datetime option" datetime
  | MarkUsed string int

fun mgr_step :: "SeqIdManager \<Rightarrow> mgr_op \<Rightarrow> int list \<times> SeqIdManager" where
  "mgr_step m (Issue u issued clk) =
     (case issue m u issued clk of
        (Inr b, m') \<Rightarrow> (if map_of (by_uid m) u = Some b then [] else [seq_id b], m')
      | (Inl err, m') \<Rightarrow> ([], m'))"
| "mgr_step m (Validate u sq now clk) = ([], snd (validate m u sq now clk))"
| "mgr_step m (MarkUsed u sq) = ([], snd (mark_used m u sq))"

fun allocated :: "SeqIdManager \<Rightarrow> mgr_op list \<Rightarrow> int list \<times> SeqIdManager" where
  "allocated m [] = ([], m)"
| "allocated m (c # cs) =
     (let (xs, m1) = mgr_step m c; (ys, m2) = allocated m1 cs in (xs @ ys, m2))"

text \<open>
  What holds of every manager that the constructor and the methods produce: the
  validity window is positive, and every binding stored under a uid carries that uid
  and an identifier below the counter, under which the by-seq index stores the same
  binding.
\<close>

definition mgr_inv :: "SeqIdManager \<Rightarrow> bool" where
  "mgr_inv m =
    (0 < validity m \<and>
     list_all (\<lambda>u. case map_of (by_uid m) u of
                      None \<Rightarrow> True
                    | Some b \<Rightarrow> uid b = u \<and> seq_id b < counter m
                                \<and> map_of (by_seq m) (seq_id b) = Some b)
              (map fst (by_uid m)))"

text \<open>The position of a state on the happy path.\<close>

fun rank :: "AssetState \<Rightarrow> nat" where
  "rank UNREGISTERED = 0"
| "rank RFID_VERIFIED = 1"
| "rank SEQ_BOUND = 2"
| "rank XRF_VERIFIED = 3"
| "rank SLOT_BOUND = 4"
| "rank STORED = 5"

subsection \<open>A concrete run: the scenario of the specification\<close>

text \<open>A manager with counter 1 and a validity window of 20 minutes; asset \<open>A\<close> is read
  and bound at time \<open>demo_t0\<close>, and the verification report arrives one minute later.
  \<open>demo_blank\<close> is the engine after a read of the empty uid, \<open>demo_used_mgr\<close> the manager
  after the binding of \<open>A\<close> was used.\<close>

definition demo_t0 :: datetime where "demo_t0 = 63800000000000000"

definition demo_wall :: "datetime \<Rightarrow> wall_clock" where
  "demo_wall t = \<lparr>iso_entry = ''entry'', dt_seq = t, iso_exit = ''exit''\<rparr>"

definition demo_mgr :: SeqIdManager where
  "demo_mgr = \<lparr>counter = 1, validity = 1200000000, by_uid = [], by_seq = []\<rparr>"

definition demo_bound :: Engine where
  "demo_bound =
    snd (handle_seq_request
          (snd (handle_rfid_read (Engine_init demo_mgr) ''A'' ''GW01'' None (demo_wall demo_t0)))
          ''A'' None (demo_wall demo_t0))"

definition demo_first :: "(py_error + EnforcementDecision) \<times> Engine" where
  "demo_first = handle_xrf_report demo_bound ''A'' 1 (Finite 99.6) 10 True ''PC01'' None None
                  (demo_wall (demo_t0 + 60000000))"

definition demo_second :: "(py_error + EnforcementDecision) \<times> Engine" where
  "demo_second = handle_xrf_report (snd demo_first) ''A'' 1 (Finite 99.6) 10 True ''PC01'' None None
                  (demo_wall (demo_t0 + 60000000))"

definition demo_blank :: Engine where
  "demo_blank = snd (handle_rfid_read (Engine_init demo_mgr) [] ''GW01'' None (demo_wall demo_t0))"

definition demo_used_mgr :: SeqIdManager where
  "demo_used_mgr = snd (mark_used (snd (issue demo_mgr ''A'' (Some demo_t0) 0)) ''A'' 1)"

definition demo_bad_thresholds :: "(string \<times> pyval) list option" where
  "demo_bad_thresholds =
    Some [(''purity_min_percent'', PStr ''n/a'' (Inl ValueError) (Inl ValueError))]"

definition demo_ops :: "(op \<times> wall_clock) list" where
  "demo_ops =
    [(XrfReport ''A'' 1 (Finite 99.6) 10 True ''PC01'' None None, demo_wall demo_t0),
     (RfidRead ''A'' ''GW01'' None, demo_wall demo_t0),
     (RfidRead ''A'' ''GW01'' None, demo_wall demo_t0),
     (SeqRequest ''A'' None, demo_wall demo_t0),
     (SlotMotion ''A'' ''S-07'' None, demo_wall demo_t0),
     (XrfReport ''A'' 1 (Finite 98.5) 10 True ''PC01'' None None, demo_wall (demo_t0 + 60000000)),
     (XrfReport ''A'' 1 (Finite 99.6) 10 True ''PC01'' None demo_bad_thresholds,
      demo_wall (demo_t0 + 60000000)),
     (XrfReport ''A'' 1 (Finite 99.6) 10 True ''PC01'' None None, demo_wall (demo_t0 + 60000000)),
     (XrfReport ''A'' 1 (Finite 99.6) 10 True ''PC01'' None None, demo_wall (demo_t0 + 60000000)),
     (StorageConfirmed ''A'' ''S-07'' None, demo_wall (demo_t0 + 60000000))]"

definition demo_mgr_ops :: "mgr_op list" where
  "demo_mgr_ops =
    [Issue ''A'' (Some demo_t0) 0,
     Issue ''B'' (Some demo_t0) 0,
     Issue ''A'' (Some (demo_t0 + 60000000)) 0,
     MarkUsed ''A'' 1,
     Validate ''A'' 1 (Some (demo_t0 + 60000000)) 0,
     Issue ''A'' (Some (demo_t0 + 60000000)) 0,
     Issue '' '' (Some (demo_t0 + 60000000)) 0,
     Issue ''B'' (Some (demo_t0 + 1260000000)) 0,
     Issue ''B'' (Some (demo_t0 + 1260000000)) 0]"


section \<open>Properties\<close>

subsection \<open>State of an asset and what each handler returns\<close>

lemma get_fsm_eq: "get_fsm e u = (current_state e u, set_state e u (current_state e u))"
  by (simp add: get_fsm_def current_state_def set_state_def update_triv split: option.splits)

lemma current_state_set_state:
  "current_state (set_state e u s) v = (if v = u then s else current_state e v)"
  by (simp add: current_state_def set_state_def update_conv')

lemma seq_set_state: "seq (set_state e u s) = seq e"
  by (simp add: set_state_def)

lemma set_state_twice: "set_state (set_state e u s) u s' = set_state e u s'"
  by (simp add: set_state_def)

lemma current_state_seq_update: "current_state (e\<lparr>seq := m\<rparr>) v = current_state e v"
  by (simp add: current_state_def)

lemma set_state_same:
  "map_of (fsms e) u = Some s \<Longrightarrow> set_state e u s = e"
  by (simp add: set_state_def update_triv)

lemma fsm_apply_RFID_READ:
  "fsm_apply s RFID_READ =
    (if s = UNREGISTERED
     then (\<lparr>accepted = True, tr_prev_state = s, tr_event = RFID_READ,
            tr_next_state = RFID_VERIFIED, tr_reason = ''STATE_ADVANCED''\<rparr>, RFID_VERIFIED)
     else (\<lparr>accepted = False, tr_prev_state = s, tr_event = RFID_READ, tr_next_state = s,
            tr_reason = ''ILLEGAL_TRANSITION:'' @ state_value s @ ''->RFID_READ''\<rparr>, s))"
  by (cases s) (simp_all add: fsm_apply_def NON_TRANSITION_EVENTS_def ALLOWED_def)

lemma fsm_apply_SEQ_ASSIGNED:
  "fsm_apply RFID_VERIFIED SEQ_ASSIGNED =
     (\<lparr>accepted = True, tr_prev_state = RFID_VERIFIED, tr_event = SEQ_ASSIGNED,
       tr_next_state = SEQ_BOUND, tr_reason = ''STATE_ADVANCED''\<rparr>, SEQ_BOUND)"
  by (simp add: fsm_apply_def NON_TRANSITION_EVENTS_def ALLOWED_def)

lemma fsm_apply_XRF:
  "fsm_apply SEQ_BOUND XRF_REPORT_ACCEPTED =
     (\<lparr>accepted = True, tr_prev_state = SEQ_BOUND, tr_event = XRF_REPORT_ACCEPTED,
       tr_next_state = XRF_VERIFIED, tr_reason = ''STATE_ADVANCED''\<rparr>, XRF_VERIFIED)"
  by (simp add: fsm_apply_def NON_TRANSITION_EVENTS_def ALLOWED_def)

lemma fsm_apply_SLOT_ASSIGNED:
  "fsm_apply XRF_VERIFIED SLOT_ASSIGNED =
     (\<lparr>accepted = True, tr_prev_state = XRF_VERIFIED, tr_event = SLOT_ASSIGNED,
       tr_next_state = SLOT_BOUND, tr_reason = ''STATE_ADVANCED''\<rparr>, SLOT_BOUND)"
  by (simp add: fsm_apply_def NON_TRANSITION_EVENTS_def ALLOWED_def)

lemma fsm_apply_STORAGE_CONFIRMED:
  "fsm_apply SLOT_BOUND STORAGE_CONFIRMED =
     (\<lparr>accepted = True, tr_prev_state = SLOT_BOUND, tr_event = STORAGE_CONFIRMED,
       tr_next_state = STORED, tr_reason = ''STATE_ADVANCED''\<rparr>, STORED)"
  by (simp add: fsm_apply_def NON_TRANSITION_EVENTS_def ALLOWED_def)

lemma fsm_apply_non_transition:
  "fsm_apply s SLOT_MOTION =
     (\<lparr>accepted = True, tr_prev_state = s, tr_event = SLOT_MOTION, tr_next_state = s,
       tr_reason = ''NON_TRANSITION_EVENT_ACCEPTED''\<rparr>, s)"
  "fsm_apply s TAMPER =
     (\<lparr>accepted = True, tr_prev_state = s, tr_event = TAMPER, tr_next_state = s,
       tr_reason = ''NON_TRANSITION_EVENT_ACCEPTED''\<rparr>, s)"
  by (simp_all add: fsm_apply_def NON_TRANSITION_EVENTS_def)

lemma handle_rfid_read_eq:
  "handle_rfid_read e u g ts w =
    (if current_state e u = UNREGISTERED
     then (\<lparr>decision = ACCEPT, reason = ''STATE_ADVANCED'', asset_id = u,
            prev_state = UNREGISTERED, next_state = RFID_VERIFIED, event = RFID_READ,
            timestamp_utc = iso_exit w, details = [(''gateway_id'', DStr g)]\<rparr>,
           set_state e u RFID_VERIFIED)
     else (\<lparr>decision = REJECT,
            reason = ''ILLEGAL_TRANSITION:'' @ state_value (current_state e u) @ ''->RFID_READ'',
            asset_id = u, prev_state = current_state e u, next_state = current_state e u,
            event = RFID_READ, timestamp_utc = iso_exit w,
            details = [(''gateway_id'', DStr g)]\<rparr>,
           set_state e u (current_state e u)))"
  by (simp add: handle_rfid_read_def get_fsm_eq fsm_apply_RFID_READ set_state_twice
      accept_def reject_def Let_def)

lemma handle_slot_assigned_eq:
  "handle_slot_assigned e u sl ts w =
    (if current_state e u = XRF_VERIFIED
     then (\<lparr>decision = ACCEPT, reason = ''STATE_ADVANCED'', asset_id = u,
            prev_state = XRF_VERIFIED, next_state = SLOT_BOUND, event = SLOT_ASSIGNED,
            timestamp_utc = iso_exit w, details = [(''slot_id'', DStr sl)]\<rparr>,
           set_state e u SLOT_BOUND)
     else (reject_simple u (current_state e u) SLOT_ASSIGNED ''STATE_NOT_XRF_VERIFIED''
             [(''slot_id'', DStr sl)] w,
           set_state e u (current_state e u)))"
  by (simp add: handle_slot_assigned_def get_fsm_eq fsm_apply_SLOT_ASSIGNED set_state_twice
      accept_def reject_def Let_def)

lemma handle_storage_confirmed_eq:
  "handle_storage_confirmed e u sl ts w =
    (if current_state e u = SLOT_BOUND
     then (\<lparr>decision = ACCEPT, reason = ''STATE_ADVANCED'', asset_id = u,
            prev_state = SLOT_BOUND, next_state = STORED, event = STORAGE_CONFIRMED,
            timestamp_utc = iso_exit w, details = [(''slot_id'', DStr sl)]\<rparr>,
           set_state e u STORED)
     else (reject_simple u (current_state e u) STORAGE_CONFIRMED ''STATE_NOT_SLOT_BOUND''
             [(''slot_id'', DStr sl)] w,
           set_state e u (current_state e u)))"
  by (simp add: handle_storage_confirmed_def get_fsm_eq fsm_apply_STORAGE_CONFIRMED set_state_twice
      accept_def reject_def Let_def)

lemma handle_slot_motion_eq:
  "handle_slot_motion e u sl ts w =
    (\<lparr>decision = ALERT, reason = ''SLOT_MOTION_DETECTED'', asset_id = u,
      prev_state = current_state e u, next_state = current_state e u,
      event = SLOT_MOTION, timestamp_utc = ts_or_now ts w,
      details = [(''slot_id'', DStr sl)]\<rparr>,
     set_state e u (current_state e u))"
  by (simp add: handle_slot_motion_def get_fsm_eq fsm_apply_non_transition set_state_twice Let_def)

lemma handle_seq_request_gate:
  "current_state e u \<noteq> RFID_VERIFIED \<Longrightarrow>
   handle_seq_request e u ts w =
     (Inr (reject_simple u (current_state e u) SEQ_ASSIGNED ''STATE_NOT_RFID_VERIFIED''
             [(''ts'', DStr (ts_or_now ts w))] w),
      set_state e u (current_state e u))"
  by (simp add: handle_seq_request_def get_fsm_eq Let_def)

lemma handle_seq_request_raise:
  "current_state e u = RFID_VERIFIED \<Longrightarrow> issue (seq e) u None (dt_seq w) = (Inl err, m') \<Longrightarrow>
   handle_seq_request e u ts w = (Inl err, (set_state e u RFID_VERIFIED)\<lparr>seq := m'\<rparr>)"
  by (simp add: handle_seq_request_def get_fsm_eq Let_def seq_set_state)

lemma set_state_seq_update:
  "set_state (e\<lparr>seq := m\<rparr>) u s = (set_state e u s)\<lparr>seq := m\<rparr>"
  by (simp add: set_state_def)

lemma handle_seq_request_issue:
  "current_state e u = RFID_VERIFIED \<Longrightarrow> issue (seq e) u None (dt_seq w) = (Inr b, m') \<Longrightarrow>
   handle_seq_request e u ts w =
     (Inr \<lparr>decision = ACCEPT, reason = ''SEQ_ISSUED'', asset_id = u,
           prev_state = RFID_VERIFIED, next_state = SEQ_BOUND,
           event = SEQ_ASSIGNED, timestamp_utc = ts_or_now ts w,
           details = [(''seq_id'', DInt (seq_id b)), (''issued_at'', DIso (issued_at b)),
                      (''expires_at'', DIso (expires_at b))]\<rparr>,
      (set_state e u SEQ_BOUND)\<lparr>seq := m'\<rparr>)"
  by (simp add: handle_seq_request_def get_fsm_eq Let_def seq_set_state fsm_apply_SEQ_ASSIGNED
      set_state_seq_update set_state_twice)

lemma xrf_trace_gate:
  "current_state e u \<noteq> SEQ_BOUND \<Longrightarrow>
   handle_xrf_report_trace e u sq p sd c pc ts th w =
     (Inr (reject_simple u (current_state e u) XRF_REPORT_ACCEPTED ''STATE_NOT_SEQ_BOUND''
        [(''pc_id'', DStr pc)] w),
      [set_state e u (current_state e u)])"
  by (simp add: handle_xrf_report_trace_def get_fsm_eq Let_def)

lemma xrf_trace_seq_invalid:
  "current_state e u = SEQ_BOUND \<Longrightarrow> fst (validate (seq e) u sq None (dt_seq w)) \<noteq> ''OK'' \<Longrightarrow>
   handle_xrf_report_trace e u sq p sd c pc ts th w =
     (Inr (reject_simple u SEQ_BOUND XRF_REPORT_ACCEPTED
        (''SEQ_INVALID:'' @ fst (validate (seq e) u sq None (dt_seq w)))
        [(''pc_id'', DStr pc), (''seq_id'', DInt sq)] w),
      [set_state e u SEQ_BOUND])"
  by (simp add: handle_xrf_report_trace_def get_fsm_eq Let_def seq_set_state)

lemma xrf_trace_raise:
  "current_state e u = SEQ_BOUND \<Longrightarrow> fst (validate (seq e) u sq None (dt_seq w)) = ''OK'' \<Longrightarrow>
   convert_thresholds th = Inl err \<Longrightarrow>
   handle_xrf_report_trace e u sq p sd c pc ts th w = (Inl err, [set_state e u SEQ_BOUND])"
  by (simp add: handle_xrf_report_trace_def get_fsm_eq Let_def seq_set_state)

lemma xrf_trace_sanity:
  "current_state e u = SEQ_BOUND \<Longrightarrow> fst (validate (seq e) u sq None (dt_seq w)) = ''OK'' \<Longrightarrow>
   convert_thresholds th = Inr (pm, sm, cr) \<Longrightarrow>
   flt_less p pm \<or> sd < sm \<or> (cr \<and> \<not> c) \<Longrightarrow>
   handle_xrf_report_trace e u sq p sd c pc ts th w =
     (Inr (reject_simple u SEQ_BOUND XRF_REPORT_ACCEPTED
        (if flt_less p pm then ''SANITY_FAIL:PURITY_TOO_LOW''
         else if sd < sm then ''SANITY_FAIL:SCAN_TOO_SHORT''
         else ''SANITY_FAIL:CONTACT_NOT_OK'')
        (if flt_less p pm
         then [(''purity'', DFloat p), (''purity_min'', DFloat pm), (''pc_id'', DStr pc)]
         else if sd < sm
         then [(''scan_duration_s'', DInt sd), (''scan_min'', DInt sm), (''pc_id'', DStr pc)]
         else [(''contact_ok'', DBool c), (''pc_id'', DStr pc)]) w),
      [set_state e u SEQ_BOUND])"
  by (auto simp add: handle_xrf_report_trace_def get_fsm_eq Let_def seq_set_state)

lemma xrf_trace_accept:
  "current_state e u = SEQ_BOUND \<Longrightarrow> fst (validate (seq e) u sq None (dt_seq w)) = ''OK'' \<Longrightarrow>
   convert_thresholds th = Inr (pm, sm, cr) \<Longrightarrow>
   \<not> flt_less p pm \<Longrightarrow> \<not> sd < sm \<Longrightarrow> \<not> (cr \<and> \<not> c) \<Longrightarrow>
   handle_xrf_report_trace e u sq p sd c pc ts th w =
     (Inr \<lparr>decision = ACCEPT, reason = ''STATE_ADVANCED'', asset_id = u,
       prev_state = SEQ_BOUND, next_state = XRF_VERIFIED, event = XRF_REPORT_ACCEPTED,
       timestamp_utc = iso_exit w,
       details = [(''pc_id'', DStr pc), (''seq_id'', DInt sq), (''purity'', DFloat p),
                  (''scan_duration_s'', DInt sd), (''contact_ok'', DBool c)]\<rparr>,
      [set_state e u SEQ_BOUND, set_state e u XRF_VERIFIED,
       (set_state e u XRF_VERIFIED)\<lparr>seq := snd (mark_used (seq e) u sq)\<rparr>])"
  by (simp add: handle_xrf_report_trace_def get_fsm_eq Let_def seq_set_state fsm_apply_XRF
      set_state_twice accept_def)

text \<open>The five ways a verification report can end.\<close>

lemma xrf_trace_cases:
  obtains
    (gate) "current_state e u \<noteq> SEQ_BOUND"
  | (invalid) "current_state e u = SEQ_BOUND"
      "fst (validate (seq e) u sq None (dt_seq w)) \<noteq> ''OK''"
  | (raise) err where "current_state e u = SEQ_BOUND"
      "fst (validate (seq e) u sq None (dt_seq w)) = ''OK''" "convert_thresholds th = Inl err"
  | (sanity) pm sm cr where "current_state e u = SEQ_BOUND"
      "fst (validate (seq e) u sq None (dt_seq w)) = ''OK''"
      "convert_thresholds th = Inr (pm, sm, cr)"
      "flt_less p pm \<or> sd < sm \<or> (cr \<and> \<not> c)"
  | (accept) pm sm cr where "current_state e u = SEQ_BOUND"
      "fst (validate (seq e) u sq None (dt_seq w)) = ''OK''"
      "convert_thresholds th = Inr (pm, sm, cr)"
      "\<not> flt_less p pm" "\<not> sd < sm" "\<not> (cr \<and> \<not> c)"
proof (cases "current_state e u = SEQ_BOUND")
  case False
  then show ?thesis by (rule gate)
next
  case sb: True
  show ?thesis
  proof (cases "fst (validate (seq e) u sq None (dt_seq w)) = ''OK''")
    case False
    with sb show ?thesis by (rule invalid)
  next
    case ok: True
    show ?thesis
    proof (cases "convert_thresholds th")
      case (Inl err)
      with sb ok show ?thesis by (rule raise)
    next
      case (Inr x)
      obtain pm sm cr where x: "x = (pm, sm, cr)" by (cases x)
      show ?thesis
      proof (cases "flt_less p pm \<or> sd < sm \<or> (cr \<and> \<not> c)")
        case True
        with sb ok Inr x show ?thesis by (intro sanity) auto
      next
        case False
        with sb ok Inr x show ?thesis by (intro accept) auto
      qed
    qed
  qed
qed

lemma xrf_trace_accept_iff:
  "(\<exists>d. fst (handle_xrf_report_trace e u sq p sd c pc ts th w) = Inr d \<and> decision d = ACCEPT) \<longleftrightarrow>
   current_state e u = SEQ_BOUND \<and> fst (validate (seq e) u sq None (dt_seq w)) = ''OK'' \<and>
   (\<exists>pm sm cr. convert_thresholds th = Inr (pm, sm, cr) \<and>
      \<not> flt_less p pm \<and> \<not> sd < sm \<and> \<not> (cr \<and> \<not> c))"
proof (cases rule: xrf_trace_cases[where e = e and u = u and sq = sq and w = w and th = th
      and p = p and sd = sd and c = c])
  case gate
  then show ?thesis by (simp add: xrf_trace_gate reject_simple_def)
next
  case invalid
  then show ?thesis by (simp add: xrf_trace_seq_invalid reject_simple_def)
next
  case (raise err)
  then show ?thesis by (simp add: xrf_trace_raise)
next
  case (sanity pm sm cr)
  from xrf_trace_sanity[OF this] sanity show ?thesis by (auto simp: reject_simple_def)
next
  case (accept pm sm cr)
  from xrf_trace_accept[OF this] accept show ?thesis by auto
qed

subsection \<open>Replay of an accepted verification report\<close>

lemma demo_mgr_init: "SeqIdManager_init 1 20 = Inr demo_mgr"
  by (simp add: SeqIdManager_init_def demo_mgr_def)

lemma not_blank_A: "\<not> (''A'' = [] \<or> strip ''A'' = [])"
  by (simp add: strip_def is_space_def)

lemma demo_bound_eq:
  "demo_bound =
    \<lparr>seq = \<lparr>counter = 2, validity = 1200000000,
             by_uid = [(''A'', \<lparr>uid = ''A'', seq_id = 1, issued_at = demo_t0,
                                expires_at = demo_t0 + 1200000000, used = False\<rparr>)],
             by_seq = [(1, \<lparr>uid = ''A'', seq_id = 1, issued_at = demo_t0,
                             expires_at = demo_t0 + 1200000000, used = False\<rparr>)]\<rparr>,
     fsms = [(''A'', SEQ_BOUND)]\<rparr>"
  by (simp add: demo_bound_def handle_rfid_read_def handle_seq_request_def get_fsm_def
      set_state_def Engine_init_def demo_mgr_def demo_wall_def fsm_apply_def ALLOWED_def
      NON_TRANSITION_EVENTS_def issue_def allocate_def strip_def is_space_def
      demo_t0_def MAX_DT_def Let_def accept_def)

lemma demo_first_eq:
  "demo_first =
    (Inr \<lparr>decision = ACCEPT, reason = ''STATE_ADVANCED'', asset_id = ''A'',
      prev_state = SEQ_BOUND, next_state = XRF_VERIFIED, event = XRF_REPORT_ACCEPTED,
      timestamp_utc = ''exit'',
      details = [(''pc_id'', DStr ''PC01''), (''seq_id'', DInt 1), (''purity'', DFloat (Finite 99.6)),
                 (''scan_duration_s'', DInt 10), (''contact_ok'', DBool True)]\<rparr>,
     \<lparr>seq = \<lparr>counter = 2, validity = 1200000000,
             by_uid = [(''A'', \<lparr>uid = ''A'', seq_id = 1, issued_at = demo_t0,
                                expires_at = demo_t0 + 1200000000, used = True\<rparr>)],
             by_seq = [(1, \<lparr>uid = ''A'', seq_id = 1, issued_at = demo_t0,
                             expires_at = demo_t0 + 1200000000, used = True\<rparr>)]\<rparr>,
      fsms = [(''A'', XRF_VERIFIED)]\<rparr>)"
  by (simp add: demo_first_def demo_bound_eq handle_xrf_report_def handle_xrf_report_trace_def
      get_fsm_def set_state_def demo_wall_def fsm_apply_def ALLOWED_def
      NON_TRANSITION_EVENTS_def validate_def is_expired_def mark_used_def
      convert_thresholds_def dict_get_def
      demo_t0_def Let_def accept_def ts_or_now_def)

text \<open>
  C1, as stated, fails: in the scenario of the specification the second presentation of
  the accepted report is rejected by the state gate, with reason \<open>STATE_NOT_SEQ_BOUND\<close>,
  and never reaches the identity validation.
\<close>

theorem xrf_replay_counterexample:
  "(\<exists>d. fst demo_first = Inr d \<and> decision d = ACCEPT)
   \<and> current_state (snd demo_first) ''A'' = XRF_VERIFIED
   \<and> (\<exists>d. fst demo_second = Inr d \<and> decision d = REJECT
          \<and> reason d = ''STATE_NOT_SEQ_BOUND''
          \<and> reason d \<noteq> ''SEQ_INVALID:ALREADY_USED'')"
  by (simp add: demo_second_def demo_first_eq handle_xrf_report_def handle_xrf_report_trace_def
      get_fsm_def current_state_def reject_simple_def Let_def)

text \<open>
  C1 (amended): after an accepted verification report the asset is \<open>XRF_VERIFIED\<close>, and
  any further verification report for the same uid and seq\_id (whatever its other
  arguments and whatever the clock reads) is rejected with reason
  \<open>STATE_NOT_SEQ_BOUND\<close>, previous and next state \<open>XRF_VERIFIED\<close>, and leaves the
  engine as it was.
\<close>

theorem xrf_replay_state_gate:
  assumes "fst (handle_xrf_report e u sq p sd c pc ts th w) = Inr d" and "decision d = ACCEPT"
  shows "current_state (snd (handle_xrf_report e u sq p sd c pc ts th w)) u = XRF_VERIFIED
    \<and> handle_xrf_report (snd (handle_xrf_report e u sq p sd c pc ts th w)) u sq p' sd' c' pc' ts' th' w'
       = (Inr (reject_simple u XRF_VERIFIED XRF_REPORT_ACCEPTED ''STATE_NOT_SEQ_BOUND''
                 [(''pc_id'', DStr pc')] w'),
          snd (handle_xrf_report e u sq p sd c pc ts th w))"
proof -
  let ?e' = "(set_state e u XRF_VERIFIED)\<lparr>seq := snd (mark_used (seq e) u sq)\<rparr>"
  from assms have "\<exists>d. fst (handle_xrf_report_trace e u sq p sd c pc ts th w) = Inr d
                        \<and> decision d = ACCEPT"
    by (simp add: handle_xrf_report_def split_beta Let_def)
  then obtain pm sm cr where cond: "current_state e u = SEQ_BOUND"
      "fst (validate (seq e) u sq None (dt_seq w)) = ''OK''"
      "convert_thresholds th = Inr (pm, sm, cr)"
      "\<not> flt_less p pm" "\<not> sd < sm" "\<not> (cr \<and> \<not> c)"
    unfolding xrf_trace_accept_iff by blast
  from xrf_trace_accept[OF cond]
  have e': "snd (handle_xrf_report e u sq p sd c pc ts th w) = ?e'"
    by (simp add: handle_xrf_report_def)
  have cs: "current_state ?e' u = XRF_VERIFIED"
    by (simp add: current_state_seq_update current_state_set_state)
  have same: "set_state ?e' u XRF_VERIFIED = ?e'"
    by (simp add: set_state_seq_update set_state_twice)
  have "handle_xrf_report ?e' u sq p' sd' c' pc' ts' th' w'
       = (Inr (reject_simple u XRF_VERIFIED XRF_REPORT_ACCEPTED ''STATE_NOT_SEQ_BOUND''
                 [(''pc_id'', DStr pc')] w'), ?e')"
    using cs same by (simp add: handle_xrf_report_def xrf_trace_gate)
  with cs e' show ?thesis by simp
qed

text \<open>The scenario of the specification satisfies the hypothesis.\<close>

theorem xrf_replay_state_gate_witness:
  "(\<exists>d. fst demo_first = Inr d \<and> decision d = ACCEPT)
   \<and> handle_xrf_report (snd demo_first) ''A'' 1 (Finite 99.6) 10 True ''PC01'' None None
        (demo_wall (demo_t0 + 60000000))
      = (Inr (reject_simple ''A'' XRF_VERIFIED XRF_REPORT_ACCEPTED ''STATE_NOT_SEQ_BOUND''
            [(''pc_id'', DStr ''PC01'')] (demo_wall (demo_t0 + 60000000))), snd demo_first)"
proof -
  let ?d = "\<lparr>decision = ACCEPT, reason = ''STATE_ADVANCED'', asset_id = ''A'',
      prev_state = SEQ_BOUND, next_state = XRF_VERIFIED, event = XRF_REPORT_ACCEPTED,
      timestamp_utc = ''exit'',
      details = [(''pc_id'', DStr ''PC01''), (''seq_id'', DInt 1), (''purity'', DFloat (Finite 99.6)),
                 (''scan_duration_s'', DInt 10), (''contact_ok'', DBool True)]\<rparr>"
  have h: "fst (handle_xrf_report demo_bound ''A'' 1 (Finite 99.6) 10 True ''PC01'' None None
                  (demo_wall (demo_t0 + 60000000))) = Inr ?d"
    using demo_first_eq by (simp add: demo_first_def)
  have a: "decision ?d = ACCEPT" by simp
  from xrf_replay_state_gate[OF h a] h show ?thesis by (simp add: demo_first_def)
qed

subsection \<open>Non-transition events, validation and the order of checks\<close>

lemma set_state_current:
  "current_state e u = s \<Longrightarrow> s \<noteq> UNREGISTERED \<Longrightarrow> set_state e u s = e"
  by (auto simp: current_state_def set_state_def update_triv split: option.splits)

text \<open>
  C9: in every state the state machine accepts \<open>SLOT_MOTION\<close> and \<open>TAMPER\<close> with the
  state unchanged and reason \<open>NON_TRANSITION_EVENT_ACCEPTED\<close>; the motion handler of the
  engine always returns an \<open>ALERT\<close> with reason \<open>SLOT_MOTION_DETECTED\<close>, previous and
  next state the state of the asset, and changes neither the state of any asset nor the
  identity manager.
\<close>

theorem non_transition_events_leave_state:
  "fsm_apply s SLOT_MOTION =
     (\<lparr>accepted = True, tr_prev_state = s, tr_event = SLOT_MOTION, tr_next_state = s,
       tr_reason = ''NON_TRANSITION_EVENT_ACCEPTED''\<rparr>, s)
   \<and> fsm_apply s TAMPER =
     (\<lparr>accepted = True, tr_prev_state = s, tr_event = TAMPER, tr_next_state = s,
       tr_reason = ''NON_TRANSITION_EVENT_ACCEPTED''\<rparr>, s)
   \<and> decision (fst (handle_slot_motion e u sl ts w)) = ALERT
   \<and> reason (fst (handle_slot_motion e u sl ts w)) = ''SLOT_MOTION_DETECTED''
   \<and> prev_state (fst (handle_slot_motion e u sl ts w)) = current_state e u
   \<and> next_state (fst (handle_slot_motion e u sl ts w)) = current_state e u
   \<and> current_state (snd (handle_slot_motion e u sl ts w)) v = current_state e v
   \<and> seq (snd (handle_slot_motion e u sl ts w)) = seq e"
  by (simp add: fsm_apply_non_transition handle_slot_motion_eq current_state_set_state
      seq_set_state)

text \<open>
  C3: with an explicit \<open>now\<close>, \<open>validate\<close> returns \<open>OK\<close> exactly when a binding exists
  for the uid, its seq\_id is the presented one, \<open>now \<le> expires_at\<close> and it is unused;
  otherwise it returns the first failing reason in the order \<open>NO_BINDING_FOR_UID\<close>,
  \<open>SEQ_MISMATCH\<close>, \<open>EXPIRED\<close>, \<open>ALREADY_USED\<close>; the manager is left as it was.
\<close>

theorem validate_priority:
  "(fst (validate m u sq (Some now) clk) = ''OK'') =
      (\<exists>b. map_of (by_uid m) u = Some b \<and> seq_id b = sq \<and> now \<le> expires_at b \<and> \<not> used b)
   \<and> (fst (validate m u sq (Some now) clk) = ''NO_BINDING_FOR_UID'') =
      (map_of (by_uid m) u = None)
   \<and> (fst (validate m u sq (Some now) clk) = ''SEQ_MISMATCH'') =
      (\<exists>b. map_of (by_uid m) u = Some b \<and> seq_id b \<noteq> sq)
   \<and> (fst (validate m u sq (Some now) clk) = ''EXPIRED'') =
      (\<exists>b. map_of (by_uid m) u = Some b \<and> seq_id b = sq \<and> now > expires_at b)
   \<and> (fst (validate m u sq (Some now) clk) = ''ALREADY_USED'') =
      (\<exists>b. map_of (by_uid m) u = Some b \<and> seq_id b = sq \<and> now \<le> expires_at b \<and> used b)
   \<and> fst (validate m u sq (Some now) clk) \<in>
        {''OK'', ''NO_BINDING_FOR_UID'', ''SEQ_MISMATCH'', ''EXPIRED'', ''ALREADY_USED''}
   \<and> snd (validate m u sq (Some now) clk) = m"
  by (cases "map_of (by_uid m) u") (auto simp: validate_def is_expired_def)

text \<open>
  C2 does not hold of the code: \<open>handle_xrf_report\<close> calls \<open>validate\<close> without a time,
  so the outcome depends on the wall clock. From the same engine, with the same
  arguments (the same \<open>ts_utc\<close> among them), the report is accepted when the clock reads
  one minute after issuance and rejected as \<open>SEQ_INVALID:EXPIRED\<close> when it reads 21
  minutes after.
\<close>

theorem xrf_validation_reads_wall_clock:
  "(\<exists>d. fst (handle_xrf_report demo_bound ''A'' 1 (Finite 99.6) 10 True ''PC01''
       (Some ''2024-01-01T00:01:00+00:00'') None
       \<lparr>iso_entry = ''x'', dt_seq = demo_t0 + 60000000, iso_exit = ''x''\<rparr>) = Inr d
       \<and> decision d = ACCEPT)
   \<and> (\<exists>d. fst (handle_xrf_report demo_bound ''A'' 1 (Finite 99.6) 10 True ''PC01''
       (Some ''2024-01-01T00:01:00+00:00'') None
       \<lparr>iso_entry = ''x'', dt_seq = demo_t0 + 1260000000, iso_exit = ''x''\<rparr>) = Inr d
       \<and> decision d = REJECT \<and> reason d = ''SEQ_INVALID:EXPIRED'')"
  by (simp add: demo_bound_eq handle_xrf_report_def handle_xrf_report_trace_def
      get_fsm_def set_state_def fsm_apply_def ALLOWED_def
      NON_TRANSITION_EVENTS_def validate_def is_expired_def mark_used_def
      convert_thresholds_def dict_get_def
      demo_t0_def Let_def accept_def reject_simple_def ts_or_now_def)

lemma mark_used_by_uid:
  "map_of (by_uid m) u = Some b \<Longrightarrow> seq_id b = sq \<Longrightarrow>
   map_of (by_uid (snd (mark_used m u sq))) u = Some (b\<lparr>used := True\<rparr>)"
  by (simp add: mark_used_def Let_def update_conv')

lemma validate_OK_D:
  "fst (validate m u sq now clk) = ''OK'' \<Longrightarrow>
   \<exists>b. map_of (by_uid m) u = Some b \<and> seq_id b = sq \<and> \<not> used b
        \<and> \<not> is_expired b (Some (case now of Some t \<Rightarrow> t | None \<Rightarrow> clk)) clk"
  by (cases "map_of (by_uid m) u") (auto simp: validate_def Let_def split: if_splits)

text \<open>
  C4: the verification-report handler checks the state gate first, then the identity,
  then the sanity thresholds, then advances the state, then consumes the identity.
  Outside \<open>SEQ_BOUND\<close> the reason is \<open>STATE_NOT_SEQ_BOUND\<close> whatever the identity and
  measurements are; in \<open>SEQ_BOUND\<close> an invalid identity gives \<open>SEQ_INVALID:<reason>\<close>
  whatever the measurements and thresholds are; with a valid identity, a threshold
  value that cannot be converted raises and a failed threshold gives the \<open>SANITY_FAIL\<close>
  reason, nothing being written in either case; and on an accepted call the engine
  first reaches a state where the asset is \<open>XRF_VERIFIED\<close> and the binding still unused,
  and only then the state where the binding is used.
\<close>

theorem xrf_check_order:
  "(current_state e u \<noteq> SEQ_BOUND \<longrightarrow>
      (\<exists>d. fst (handle_xrf_report_trace e u sq p sd c pc ts th w) = Inr d
         \<and> decision d = REJECT \<and> reason d = ''STATE_NOT_SEQ_BOUND'')
      \<and> snd (handle_xrf_report_trace e u sq p sd c pc ts th w) = [set_state e u (current_state e u)])
   \<and> (current_state e u = SEQ_BOUND \<and> fst (validate (seq e) u sq None (dt_seq w)) \<noteq> ''OK'' \<longrightarrow>
      (\<exists>d. fst (handle_xrf_report_trace e u sq p sd c pc ts th w) = Inr d
         \<and> decision d = REJECT
         \<and> reason d = ''SEQ_INVALID:'' @ fst (validate (seq e) u sq None (dt_seq w)))
      \<and> snd (handle_xrf_report_trace e u sq p sd c pc ts th w) = [e])
   \<and> (\<forall>err. current_state e u = SEQ_BOUND \<and> fst (validate (seq e) u sq None (dt_seq w)) = ''OK''
       \<and> convert_thresholds th = Inl err \<longrightarrow>
      handle_xrf_report_trace e u sq p sd c pc ts th w = (Inl err, [e]))
   \<and> (\<forall>pm sm cr. current_state e u = SEQ_BOUND
       \<and> fst (validate (seq e) u sq None (dt_seq w)) = ''OK''
       \<and> convert_thresholds th = Inr (pm, sm, cr)
       \<and> (flt_less p pm \<or> sd < sm \<or> (cr \<and> \<not> c)) \<longrightarrow>
      (\<exists>d. fst (handle_xrf_report_trace e u sq p sd c pc ts th w) = Inr d
         \<and> decision d = REJECT
         \<and> reason d = (if flt_less p pm then ''SANITY_FAIL:PURITY_TOO_LOW''
                        else if sd < sm then ''SANITY_FAIL:SCAN_TOO_SHORT''
                        else ''SANITY_FAIL:CONTACT_NOT_OK''))
      \<and> snd (handle_xrf_report_trace e u sq p sd c pc ts th w) = [e])
   \<and> ((\<exists>d. fst (handle_xrf_report_trace e u sq p sd c pc ts th w) = Inr d
          \<and> decision d = ACCEPT) \<longrightarrow>
      (\<exists>b e2 e3.
         snd (handle_xrf_report_trace e u sq p sd c pc ts th w) = [e, e2, e3]
         \<and> current_state e u = SEQ_BOUND
         \<and> map_of (by_uid (seq e)) u = Some b \<and> seq_id b = sq \<and> \<not> used b
         \<and> current_state e2 u = XRF_VERIFIED
         \<and> map_of (by_uid (seq e2)) u = Some b
         \<and> current_state e3 u = XRF_VERIFIED
         \<and> map_of (by_uid (seq e3)) u = Some (b\<lparr>used := True\<rparr>)))"
proof -
  have p1: "(\<exists>d. fst (handle_xrf_report_trace e u sq p sd c pc ts th w) = Inr d
         \<and> decision d = REJECT \<and> reason d = ''STATE_NOT_SEQ_BOUND'')
      \<and> snd (handle_xrf_report_trace e u sq p sd c pc ts th w) = [set_state e u (current_state e u)]"
    if "current_state e u \<noteq> SEQ_BOUND"
    using that by (simp add: xrf_trace_gate reject_simple_def)
  have p2: "(\<exists>d. fst (handle_xrf_report_trace e u sq p sd c pc ts th w) = Inr d
         \<and> decision d = REJECT
         \<and> reason d = ''SEQ_INVALID:'' @ fst (validate (seq e) u sq None (dt_seq w)))
      \<and> snd (handle_xrf_report_trace e u sq p sd c pc ts th w) = [e]"
    if a: "current_state e u = SEQ_BOUND \<and> fst (validate (seq e) u sq None (dt_seq w)) \<noteq> ''OK''"
  proof -
    from a have e1: "set_state e u SEQ_BOUND = e" by (simp add: set_state_current)
    from a e1 show ?thesis by (simp add: xrf_trace_seq_invalid reject_simple_def)
  qed
  have p3: "handle_xrf_report_trace e u sq p sd c pc ts th w = (Inl err, [e])"
    if a: "current_state e u = SEQ_BOUND \<and> fst (validate (seq e) u sq None (dt_seq w)) = ''OK''
       \<and> convert_thresholds th = Inl err" for err
  proof -
    from a have e1: "set_state e u SEQ_BOUND = e" by (simp add: set_state_current)
    from a e1 show ?thesis by (simp add: xrf_trace_raise)
  qed
  have p4: "(\<exists>d. fst (handle_xrf_report_trace e u sq p sd c pc ts th w) = Inr d
         \<and> decision d = REJECT
         \<and> reason d = (if flt_less p pm then ''SANITY_FAIL:PURITY_TOO_LOW''
                        else if sd < sm then ''SANITY_FAIL:SCAN_TOO_SHORT''
                        else ''SANITY_FAIL:CONTACT_NOT_OK''))
      \<and> snd (handle_xrf_report_trace e u sq p sd c pc ts th w) = [e]"
    if a: "current_state e u = SEQ_BOUND
       \<and> fst (validate (seq e) u sq None (dt_seq w)) = ''OK''
       \<and> convert_thresholds th = Inr (pm, sm, cr)
       \<and> (flt_less p pm \<or> sd < sm \<or> (cr \<and> \<not> c))" for pm sm cr
  proof -
    from a have e1: "set_state e u SEQ_BOUND = e" by (simp add: set_state_current)
    from a have "handle_xrf_report_trace e u sq p sd c pc ts th w =
     (Inr (reject_simple u SEQ_BOUND XRF_REPORT_ACCEPTED
        (if flt_less p pm then ''SANITY_FAIL:PURITY_TOO_LOW''
         else if sd < sm then ''SANITY_FAIL:SCAN_TOO_SHORT''
         else ''SANITY_FAIL:CONTACT_NOT_OK'')
        (if flt_less p pm
         then [(''purity'', DFloat p), (''purity_min'', DFloat pm), (''pc_id'', DStr pc)]
         else if sd < sm
         then [(''scan_duration_s'', DInt sd), (''scan_min'', DInt sm), (''pc_id'', DStr pc)]
         else [(''contact_ok'', DBool c), (''pc_id'', DStr pc)]) w),
      [set_state e u SEQ_BOUND])"
      by (intro xrf_trace_sanity) blast+
    with e1 show ?thesis by (simp add: reject_simple_def)
  qed
  have p5: "\<exists>b e2 e3.
         snd (handle_xrf_report_trace e u sq p sd c pc ts th w) = [e, e2, e3]
         \<and> current_state e u = SEQ_BOUND
         \<and> map_of (by_uid (seq e)) u = Some b \<and> seq_id b = sq \<and> \<not> used b
         \<and> current_state e2 u = XRF_VERIFIED
         \<and> map_of (by_uid (seq e2)) u = Some b
         \<and> current_state e3 u = XRF_VERIFIED
         \<and> map_of (by_uid (seq e3)) u = Some (b\<lparr>used := True\<rparr>)"
    if acc: "\<exists>d. fst (handle_xrf_report_trace e u sq p sd c pc ts th w) = Inr d
          \<and> decision d = ACCEPT"
  proof -
    from acc obtain pm sm cr where cond: "current_state e u = SEQ_BOUND"
      "fst (validate (seq e) u sq None (dt_seq w)) = ''OK''"
      "convert_thresholds th = Inr (pm, sm, cr)"
      "\<not> flt_less p pm" "\<not> sd < sm" "\<not> (cr \<and> \<not> c)"
      unfolding xrf_trace_accept_iff by blast
    from cond(1) have e1: "set_state e u SEQ_BOUND = e" by (simp add: set_state_current)
    from validate_OK_D[OF cond(2)] obtain b where
      b: "map_of (by_uid (seq e)) u = Some b" "seq_id b = sq" "\<not> used b" by blast
    let ?e2 = "set_state e u XRF_VERIFIED"
    let ?e3 = "?e2\<lparr>seq := snd (mark_used (seq e) u sq)\<rparr>"
    have tr: "snd (handle_xrf_report_trace e u sq p sd c pc ts th w) = [e, ?e2, ?e3]"
      using xrf_trace_accept[OF cond] e1 by simp
    have "current_state ?e2 u = XRF_VERIFIED" "map_of (by_uid (seq ?e2)) u = Some b"
      "current_state ?e3 u = XRF_VERIFIED"
      "map_of (by_uid (seq ?e3)) u = Some (b\<lparr>used := True\<rparr>)"
      using b by (simp_all add: current_state_set_state seq_set_state current_state_seq_update
          mark_used_by_uid)
    with tr cond(1) b show ?thesis by blast
  qed
  from p1 p2 p3 p4 p5 show ?thesis by blast
qed

subsection \<open>The outcome of one operation\<close>

lemma happy_states_rank: "happy_states ! rank s = s"
  by (cases s) (simp_all add: happy_states_def)

lemma rank_happy_states: "j \<le> 5 \<Longrightarrow> rank (happy_states ! j) = j"
proof -
  assume "j \<le> 5"
  then have "j = 0 \<or> j = 1 \<or> j = 2 \<or> j = 3 \<or> j = 4 \<or> j = 5" by arith
  then show ?thesis by (auto simp: happy_states_def)
qed

lemma xrf_report_outcome:
  assumes h: "handle_xrf_report e u sq p sd c pc ts th w = (r, e')"
  shows "(\<exists>d. r = Inr d \<and> asset_id d = u \<and> decision d = ACCEPT \<and> current_state e u = SEQ_BOUND
            \<and> event d = XRF_REPORT_ACCEPTED \<and> current_state e' u = XRF_VERIFIED
            \<and> seq e' = snd (mark_used (seq e) u sq)
            \<and> (\<forall>v. v \<noteq> u \<longrightarrow> current_state e' v = current_state e v))
    \<or> (\<exists>d. r = Inr d \<and> asset_id d = u \<and> decision d = REJECT \<and> next_state d = prev_state d
            \<and> seq e' = seq e \<and> (\<forall>v. current_state e' v = current_state e v))
    \<or> (\<exists>err. r = Inl err \<and> current_state e u = SEQ_BOUND
            \<and> fst (validate (seq e) u sq None (dt_seq w)) = ''OK''
            \<and> convert_thresholds th = Inl err
            \<and> seq e' = seq e \<and> (\<forall>v. current_state e' v = current_state e v))"
proof (cases rule: xrf_trace_cases[where e = e and u = u and sq = sq and w = w and th = th
      and p = p and sd = sd and c = c])
  case gate
  with h show ?thesis
    by (auto simp: handle_xrf_report_def xrf_trace_gate reject_simple_def
        current_state_set_state seq_set_state)
next
  case invalid
  with h show ?thesis
    by (auto simp: handle_xrf_report_def xrf_trace_seq_invalid reject_simple_def
        current_state_set_state seq_set_state split: if_splits)
next
  case (raise err)
  from xrf_trace_raise[OF this] h raise show ?thesis
    by (auto simp: handle_xrf_report_def current_state_set_state seq_set_state split: if_splits)
next
  case (sanity pm sm cr)
  from xrf_trace_sanity[OF this] h sanity(1) show ?thesis
    by (auto simp: handle_xrf_report_def reject_simple_def
        current_state_set_state seq_set_state split: if_splits)
next
  case (accept pm sm cr)
  from xrf_trace_accept[OF this] h accept(1) show ?thesis
    by (auto simp: handle_xrf_report_def current_state_set_state current_state_seq_update)
qed

lemma seq_request_outcome:
  "handle_seq_request e u ts w = (r, e') \<Longrightarrow>
   (\<exists>d. r = Inr d \<and> asset_id d = u \<and> decision d = ACCEPT \<and> current_state e u = RFID_VERIFIED
      \<and> event d = SEQ_ASSIGNED \<and> current_state e' u = SEQ_BOUND
      \<and> (\<forall>v. v \<noteq> u \<longrightarrow> current_state e' v = current_state e v))
   \<or> (\<exists>d. r = Inr d \<and> asset_id d = u \<and> decision d = REJECT \<and> next_state d = prev_state d
      \<and> seq e' = seq e \<and> (\<forall>v. current_state e' v = current_state e v))
   \<or> (\<exists>err. r = Inl err \<and> current_state e u = RFID_VERIFIED
      \<and> fst (issue (seq e) u None (dt_seq w)) = Inl err
      \<and> (\<forall>v. current_state e' v = current_state e v))"
proof (cases "current_state e u = RFID_VERIFIED")
  case False
  assume "handle_seq_request e u ts w = (r, e')"
  with False show ?thesis
    by (auto simp: handle_seq_request_gate reject_simple_def current_state_set_state seq_set_state)
next
  case rv: True
  assume h: "handle_seq_request e u ts w = (r, e')"
  obtain x m' where iss: "issue (seq e) u None (dt_seq w) = (x, m')" by (cases "issue (seq e) u None (dt_seq w)")
  show ?thesis
  proof (cases x)
    case (Inl err)
    with handle_seq_request_raise[OF rv, of w err m' ts] iss h rv show ?thesis
      by (auto simp: current_state_set_state current_state_seq_update)
  next
    case (Inr b)
    with handle_seq_request_issue[OF rv, of w b m' ts] iss h rv show ?thesis
      by (auto simp: current_state_set_state current_state_seq_update)
  qed
qed

lemma step_outcome:
  assumes "step e c w = (r, e')"
  shows "(\<exists>d. r = Inr d \<and> decision d = ACCEPT \<and> rank (current_state e (asset_id d)) < 5
            \<and> event d = happy_events ! rank (current_state e (asset_id d))
            \<and> current_state e' (asset_id d) = happy_states ! Suc (rank (current_state e (asset_id d)))
            \<and> (\<forall>v. v \<noteq> asset_id d \<longrightarrow> current_state e' v = current_state e v))
      \<or> (\<exists>d. r = Inr d \<and> decision d \<noteq> ACCEPT \<and> next_state d = prev_state d \<and> seq e' = seq e
            \<and> (\<forall>v. current_state e' v = current_state e v))
      \<or> (\<exists>err. r = Inl err \<and> (\<forall>v. current_state e' v = current_state e v)
            \<and> ((\<exists>u ts. c = SeqRequest u ts \<and> current_state e u = RFID_VERIFIED
                   \<and> fst (issue (seq e) u None (dt_seq w)) = Inl err)
               \<or> (\<exists>u sq p sd cc pc ts th. c = XrfReport u sq p sd cc pc ts th
                   \<and> current_state e u = SEQ_BOUND
                   \<and> fst (validate (seq e) u sq None (dt_seq w)) = ''OK''
                   \<and> convert_thresholds th = Inl err \<and> seq e' = seq e)))"
proof (cases c)
  case (RfidRead u g ts)
  with assms show ?thesis
    by (auto simp: handle_rfid_read_eq current_state_set_state seq_set_state
        happy_events_def happy_states_def split: if_splits)
next
  case (SeqRequest u ts)
  with assms have "handle_seq_request e u ts w = (r, e')" by simp
  from seq_request_outcome[OF this] SeqRequest show ?thesis
    by (auto simp: happy_events_def happy_states_def)
next
  case (XrfReport u sq p sd cc pc ts th)
  with assms have "handle_xrf_report e u sq p sd cc pc ts th w = (r, e')" by simp
  from xrf_report_outcome[OF this] XrfReport show ?thesis
    by (auto simp: happy_events_def happy_states_def)
next
  case (SlotAssigned u sl ts)
  with assms show ?thesis
    by (auto simp: handle_slot_assigned_eq current_state_set_state seq_set_state
        reject_simple_def happy_events_def happy_states_def split: if_splits)
next
  case (StorageConfirmed u sl ts)
  with assms show ?thesis
    by (auto simp: handle_storage_confirmed_eq current_state_set_state seq_set_state
        reject_simple_def happy_events_def happy_states_def split: if_splits)
next
  case (SlotMotion u sl ts)
  with assms show ?thesis
    by (auto simp: handle_slot_motion_eq current_state_set_state seq_set_state)
qed

subsection \<open>Rejections and accepted events\<close>

lemma demo_blank_eq: "demo_blank = \<lparr>seq = demo_mgr, fsms = [([], RFID_VERIFIED)]\<rparr>"
  by (simp add: demo_blank_def handle_rfid_read_def get_fsm_def set_state_def Engine_init_def
      fsm_apply_def ALLOWED_def NON_TRANSITION_EVENTS_def Let_def)

text \<open>
  C5, as stated, fails in its first part: an identity request for the empty uid, on an
  asset that \<open>handle_rfid_read\<close> accepted, raises \<open>ValueError\<close> and returns no decision.
\<close>

theorem seq_request_blank_uid_raises:
  "decision (fst (handle_rfid_read (Engine_init demo_mgr) [] ''GW01'' None (demo_wall demo_t0))) = ACCEPT
   \<and> fst (handle_seq_request demo_blank [] None (demo_wall demo_t0)) = Inl ValueError
   \<and> fst (step demo_blank (SeqRequest [] None) (demo_wall demo_t0)) = Inl ValueError"
  by (simp add: demo_blank_eq handle_seq_request_def get_fsm_def issue_def Let_def
      handle_rfid_read_def set_state_def Engine_init_def accept_def
      fsm_apply_def ALLOWED_def NON_TRANSITION_EVENTS_def)

lemma sanity_reason_inversion:
  assumes h: "handle_xrf_report e u sq p sd c pc ts th w = (Inr d, e')"
    and r: "reason d \<in> {''SANITY_FAIL:PURITY_TOO_LOW'', ''SANITY_FAIL:SCAN_TOO_SHORT'',
                        ''SANITY_FAIL:CONTACT_NOT_OK''}"
  shows "decision d = REJECT \<and> current_state e u = SEQ_BOUND
         \<and> fst (validate (seq e) u sq None (dt_seq w)) = ''OK''
         \<and> (\<exists>pm sm cr. convert_thresholds th = Inr (pm, sm, cr)
               \<and> (flt_less p pm \<or> sd < sm \<or> (cr \<and> \<not> c)))"
proof (cases rule: xrf_trace_cases[where e = e and u = u and sq = sq and w = w and th = th
      and p = p and sd = sd and c = c])
  case gate
  with h r show ?thesis
    by (auto simp: handle_xrf_report_def xrf_trace_gate reject_simple_def)
next
  case invalid
  with h r show ?thesis
    by (auto simp: handle_xrf_report_def xrf_trace_seq_invalid reject_simple_def)
next
  case (raise err)
  from xrf_trace_raise[OF this] h show ?thesis
    by (auto simp: handle_xrf_report_def)
next
  case (sanity pm sm cr)
  from xrf_trace_sanity[OF this] h sanity show ?thesis
    by (auto simp: handle_xrf_report_def reject_simple_def)
next
  case (accept pm sm cr)
  from xrf_trace_accept[OF this] h r show ?thesis
    by (auto simp: handle_xrf_report_def)
qed

text \<open>
  C5 (amended): every engine operation returns one decision record, except in two
  cases, where it raises and returns none, leaving the state of every asset as it was:
  an identity request on an asset in state \<open>RFID_VERIFIED\<close> for which \<open>issue\<close> raises,
  and a verification report on an asset in state \<open>SEQ_BOUND\<close> with a valid identity for
  which the conversion of a threshold value raises; the error is the one raised there.
  Every \<open>REJECT\<close> decision has \<open>next_state = prev_state\<close> and leaves the identity manager
  and the state of every asset unchanged; after a sanity-threshold rejection the asset
  is still \<open>SEQ_BOUND\<close> and its binding still validates \<open>OK\<close>.
\<close>

theorem reject_leaves_state:
  assumes "step e c w = (r, e')"
  shows "(\<forall>d. r = Inr d \<and> decision d = REJECT \<longrightarrow>
            next_state d = prev_state d \<and> seq e' = seq e
            \<and> (\<forall>v. current_state e' v = current_state e v))
      \<and> (\<forall>err. (r = Inl err) =
            ((\<exists>u ts. c = SeqRequest u ts \<and> current_state e u = RFID_VERIFIED
               \<and> fst (issue (seq e) u None (dt_seq w)) = Inl err)
             \<or> (\<exists>u sq p sd cc pc ts th. c = XrfReport u sq p sd cc pc ts th
               \<and> current_state e u = SEQ_BOUND
               \<and> fst (validate (seq e) u sq None (dt_seq w)) = ''OK''
               \<and> convert_thresholds th = Inl err)))
      \<and> (\<forall>err. r = Inl err \<longrightarrow> (\<forall>v. current_state e' v = current_state e v))
      \<and> (\<forall>u sq p sd cc pc ts th d.
            c = XrfReport u sq p sd cc pc ts th \<and> r = Inr d
            \<and> reason d \<in> {''SANITY_FAIL:PURITY_TOO_LOW'', ''SANITY_FAIL:SCAN_TOO_SHORT'',
                            ''SANITY_FAIL:CONTACT_NOT_OK''} \<longrightarrow>
            decision d = REJECT \<and> current_state e u = SEQ_BOUND
            \<and> current_state e' u = SEQ_BOUND
            \<and> fst (validate (seq e') u sq None (dt_seq w)) = ''OK'')"
proof -
  have p1: "\<forall>d. r = Inr d \<and> decision d = REJECT \<longrightarrow>
            next_state d = prev_state d \<and> seq e' = seq e
            \<and> (\<forall>v. current_state e' v = current_state e v)"
    using step_outcome[OF assms] by auto
  have p2: "\<forall>err. (r = Inl err) =
            ((\<exists>u ts. c = SeqRequest u ts \<and> current_state e u = RFID_VERIFIED
               \<and> fst (issue (seq e) u None (dt_seq w)) = Inl err)
             \<or> (\<exists>u sq p sd cc pc ts th. c = XrfReport u sq p sd cc pc ts th
               \<and> current_state e u = SEQ_BOUND
               \<and> fst (validate (seq e) u sq None (dt_seq w)) = ''OK''
               \<and> convert_thresholds th = Inl err))"
  proof (intro allI iffI)
    fix err assume "r = Inl err"
    with step_outcome[OF assms]
    show "(\<exists>u ts. c = SeqRequest u ts \<and> current_state e u = RFID_VERIFIED
               \<and> fst (issue (seq e) u None (dt_seq w)) = Inl err)
             \<or> (\<exists>u sq p sd cc pc ts th. c = XrfReport u sq p sd cc pc ts th
               \<and> current_state e u = SEQ_BOUND
               \<and> fst (validate (seq e) u sq None (dt_seq w)) = ''OK''
               \<and> convert_thresholds th = Inl err)"
      by auto
  next
    fix err
    assume "(\<exists>u ts. c = SeqRequest u ts \<and> current_state e u = RFID_VERIFIED
               \<and> fst (issue (seq e) u None (dt_seq w)) = Inl err)
             \<or> (\<exists>u sq p sd cc pc ts th. c = XrfReport u sq p sd cc pc ts th
               \<and> current_state e u = SEQ_BOUND
               \<and> fst (validate (seq e) u sq None (dt_seq w)) = ''OK''
               \<and> convert_thresholds th = Inl err)"
    then show "r = Inl err"
    proof (elim disjE exE conjE)
      fix u ts
      assume c: "c = SeqRequest u ts" and rv: "current_state e u = RFID_VERIFIED"
        and i: "fst (issue (seq e) u None (dt_seq w)) = Inl err"
      from i have "issue (seq e) u None (dt_seq w) = (Inl err, snd (issue (seq e) u None (dt_seq w)))"
        by (metis prod.collapse)
      from handle_seq_request_raise[OF rv this, of ts] assms c show "r = Inl err" by simp
    next
      fix u sq p sd cc pc ts th
      assume c: "c = XrfReport u sq p sd cc pc ts th" and sb: "current_state e u = SEQ_BOUND"
        and ok: "fst (validate (seq e) u sq None (dt_seq w)) = ''OK''"
        and cv: "convert_thresholds th = Inl err"
      from xrf_trace_raise[OF sb ok cv, of p sd cc pc ts] assms c show "r = Inl err"
        by (simp add: handle_xrf_report_def)
    qed
  qed
  have p2b: "\<forall>err. r = Inl err \<longrightarrow> (\<forall>v. current_state e' v = current_state e v)"
    using step_outcome[OF assms] by auto
  have p3: "decision d = REJECT \<and> current_state e u = SEQ_BOUND
            \<and> current_state e' u = SEQ_BOUND
            \<and> fst (validate (seq e') u sq None (dt_seq w)) = ''OK''"
    if a: "c = XrfReport u sq p sd cc pc ts th \<and> r = Inr d
            \<and> reason d \<in> {''SANITY_FAIL:PURITY_TOO_LOW'', ''SANITY_FAIL:SCAN_TOO_SHORT'',
                            ''SANITY_FAIL:CONTACT_NOT_OK''}"
    for u sq p sd cc pc ts th d
  proof -
    from assms a have h: "handle_xrf_report e u sq p sd cc pc ts th w = (Inr d, e')" by simp
    from sanity_reason_inversion[OF h] a
    have inv: "decision d = REJECT" "current_state e u = SEQ_BOUND"
      "fst (validate (seq e) u sq None (dt_seq w)) = ''OK''" by simp_all
    from p1 a inv(1)
    have fr: "seq e' = seq e" "current_state e' u = current_state e u" by auto
    with inv show ?thesis by simp
  qed
  from p1 p2 p2b p3 show ?thesis by blast
qed

lemma run_prefix_gen:
  "run e cs = (rs, e') \<Longrightarrow>
   accepted_events u rs
     = take (length (accepted_events u rs)) (drop (rank (current_state e u)) happy_events)
   \<and> rank (current_state e u) + length (accepted_events u rs) \<le> 5
   \<and> current_state e' u = happy_states ! (rank (current_state e u) + length (accepted_events u rs))"
proof (induction cs arbitrary: e rs)
  case Nil
  then show ?case by (cases "current_state e u") (auto simp: happy_states_def)
next
  case (Cons a cs)
  obtain c w where a: "a = (c, w)" by (cases a)
  obtain r e1 where st: "step e c w = (r, e1)" by (cases "step e c w")
  obtain rs' e2 where rn: "run e1 cs = (rs', e2)" by (cases "run e1 cs")
  from Cons.prems a st rn have rs: "rs = r # rs'" and e2: "e2 = e'" by simp_all
  from rn e2 have rn': "run e1 cs = (rs', e')" by simp
  note IH = Cons.IH[OF rn']
  let ?j = "rank (current_state e u)"
  let ?k' = "length (accepted_events u rs')"
  show ?case
  proof (cases "\<exists>d. r = Inr d \<and> decision d = ACCEPT \<and> asset_id d = u")
    case True
    then obtain d where d: "r = Inr d" "decision d = ACCEPT" "asset_id d = u" by blast
    with step_outcome[OF st]
    have j: "?j < 5" and ev: "event d = happy_events ! ?j"
      and nx: "current_state e1 u = happy_states ! Suc ?j"
      by auto
    from j have rk: "rank (current_state e1 u) = Suc ?j"
      by (simp add: nx rank_happy_states)
    from d have acc: "accepted_events u rs = event d # accepted_events u rs'"
      by (simp add: rs)
    have len: "length happy_events = 5" by (simp add: happy_events_def)
    from j len have "happy_events ! ?j # drop (Suc ?j) happy_events = drop ?j happy_events"
      by (simp add: Cons_nth_drop_Suc)
    then have "take (Suc ?k') (drop ?j happy_events)
                = happy_events ! ?j # take ?k' (drop (Suc ?j) happy_events)"
      by (metis take_Suc_Cons)
    with IH rk acc ev show ?thesis by simp
  next
    case False
    with step_outcome[OF st] have same: "current_state e1 u = current_state e u"
      by auto
    from False have acc: "accepted_events u rs = accepted_events u rs'"
      by (cases r) (auto simp: rs)
    with IH same show ?thesis by simp
  qed
qed

text \<open>
  C6: from a new engine, after any sequence of operations, the events accepted for an
  asset are the first \<open>k\<close> events of the happy path, in order, and the asset is in the
  \<open>k\<close>-th state of the happy path.
\<close>

theorem accepted_events_prefix:
  assumes "run (Engine_init m) cs = (rs, e')"
  shows "accepted_events u rs = take (length (accepted_events u rs)) happy_events
     \<and> length (accepted_events u rs) \<le> 5
     \<and> current_state e' u = happy_states ! length (accepted_events u rs)"
proof -
  have "current_state (Engine_init m) u = UNREGISTERED"
    by (simp add: current_state_def Engine_init_def)
  with run_prefix_gen[OF assms, of u] show ?thesis by simp
qed

subsection \<open>The invariant of the identity manager\<close>

lemma mgr_inv_iff:
  "mgr_inv m \<longleftrightarrow>
     0 < validity m \<and>
     (\<forall>u b. map_of (by_uid m) u = Some b \<longrightarrow>
        uid b = u \<and> seq_id b < counter m \<and> map_of (by_seq m) (seq_id b) = Some b)"
proof -
  have "(\<forall>u \<in> fst ` set (by_uid m). case map_of (by_uid m) u of None \<Rightarrow> True
          | Some b \<Rightarrow> uid b = u \<and> seq_id b < counter m \<and> map_of (by_seq m) (seq_id b) = Some b)
      \<longleftrightarrow> (\<forall>u b. map_of (by_uid m) u = Some b \<longrightarrow>
        uid b = u \<and> seq_id b < counter m \<and> map_of (by_seq m) (seq_id b) = Some b)"
    (is "?L \<longleftrightarrow> ?R")
  proof
    assume l: ?L
    show ?R
    proof (intro allI impI)
      fix u b assume s: "map_of (by_uid m) u = Some b"
      then have "(u, b) \<in> set (by_uid m)" by (rule map_of_SomeD)
      then have "u \<in> fst ` set (by_uid m)" by force
      with l s show "uid b = u \<and> seq_id b < counter m \<and> map_of (by_seq m) (seq_id b) = Some b"
        by force
    qed
  next
    assume ?R
    then show ?L by (auto split: option.splits)
  qed
  then show ?thesis by (simp add: mgr_inv_def list_all_iff)
qed

lemma mgr_inv_init: "SeqIdManager_init start_counter validity_minutes = Inr m \<Longrightarrow> mgr_inv m"
  by (auto simp: SeqIdManager_init_def mgr_inv_def split: if_splits)

lemma allocate_ok:
  "0 \<le> t + validity m \<Longrightarrow> t + validity m \<le> MAX_DT \<Longrightarrow>
   allocate m u t =
     (Inr \<lparr>uid = u, seq_id = counter m, issued_at = t, expires_at = t + validity m, used = False\<rparr>,
      m\<lparr>counter := counter m + 1,
        by_uid := AList.update u \<lparr>uid = u, seq_id = counter m, issued_at = t,
                                  expires_at = t + validity m, used = False\<rparr> (by_uid m),
        by_seq := AList.update (counter m) \<lparr>uid = u, seq_id = counter m, issued_at = t,
                                  expires_at = t + validity m, used = False\<rparr> (by_seq m)\<rparr>)"
  by (simp add: allocate_def Let_def)

lemma allocate_cases:
  "allocate m u t = (r, m') \<Longrightarrow>
   (r = Inl OverflowError \<and> m' = m\<lparr>counter := counter m + 1\<rparr>)
   \<or> (0 \<le> t + validity m \<and> t + validity m \<le> MAX_DT \<and>
      r = Inr \<lparr>uid = u, seq_id = counter m, issued_at = t, expires_at = t + validity m, used = False\<rparr>
      \<and> m' = m\<lparr>counter := counter m + 1,
        by_uid := AList.update u \<lparr>uid = u, seq_id = counter m, issued_at = t,
                                  expires_at = t + validity m, used = False\<rparr> (by_uid m),
        by_seq := AList.update (counter m) \<lparr>uid = u, seq_id = counter m, issued_at = t,
                                  expires_at = t + validity m, used = False\<rparr> (by_seq m)\<rparr>)"
  by (auto simp: allocate_def Let_def split: if_splits)

lemma issue_cases:
  assumes "issue m u issued clk = (r, m')"
  shows "(r = Inl ValueError \<and> m' = m \<and> (u = [] \<or> strip u = []))
     \<or> (\<exists>b. r = Inr b \<and> m' = m \<and> map_of (by_uid m) u = Some b \<and> \<not> used b
           \<and> \<not> is_expired b (Some (case issued of Some t \<Rightarrow> t | None \<Rightarrow> clk)) clk)
     \<or> (\<not> (u = [] \<or> strip u = [])
         \<and> (\<forall>b. map_of (by_uid m) u = Some b \<longrightarrow>
               is_expired b (Some (case issued of Some t \<Rightarrow> t | None \<Rightarrow> clk)) clk \<or> used b)
         \<and> allocate m u (case issued of Some t \<Rightarrow> t | None \<Rightarrow> clk) = (r, m'))"
  using assms by (auto simp: issue_def Let_def split: if_splits option.splits)

lemma mgr_inv_allocate:
  assumes "mgr_inv m" "allocate m u t = (r, m')"
  shows "mgr_inv m'"
proof -
  from assms(1) have inv: "0 < validity m"
    "\<And>v b. map_of (by_uid m) v = Some b \<Longrightarrow>
        uid b = v \<and> seq_id b < counter m \<and> map_of (by_seq m) (seq_id b) = Some b"
    by (simp_all add: mgr_inv_iff)
  from allocate_cases[OF assms(2)] show ?thesis
  proof
    assume "r = Inl OverflowError \<and> m' = m\<lparr>counter := counter m + 1\<rparr>"
    with inv show ?thesis by (auto simp: mgr_inv_iff dest!: inv(2))
  next
    assume a: "0 \<le> t + validity m \<and> t + validity m \<le> MAX_DT \<and>
      r = Inr \<lparr>uid = u, seq_id = counter m, issued_at = t, expires_at = t + validity m, used = False\<rparr>
      \<and> m' = m\<lparr>counter := counter m + 1,
        by_uid := AList.update u \<lparr>uid = u, seq_id = counter m, issued_at = t,
                                  expires_at = t + validity m, used = False\<rparr> (by_uid m),
        by_seq := AList.update (counter m) \<lparr>uid = u, seq_id = counter m, issued_at = t,
                                  expires_at = t + validity m, used = False\<rparr> (by_seq m)\<rparr>"
    show ?thesis
      unfolding mgr_inv_iff
    proof (intro conjI allI impI)
      from a inv(1) show "0 < validity m'" by simp
    next
      fix v b assume s: "map_of (by_uid m') v = Some b"
      show "uid b = v" "seq_id b < counter m'" "map_of (by_seq m') (seq_id b) = Some b"
      proof -
        show "uid b = v" using s a inv(2)[of v b]
          by (auto simp: update_conv' split: if_splits)
        show "seq_id b < counter m'" using s a inv(2)[of v b]
          by (auto simp: update_conv' split: if_splits)
        show "map_of (by_seq m') (seq_id b) = Some b" using s a inv(2)[of v b]
          by (auto simp: update_conv' split: if_splits)
      qed
    qed
  qed
qed

lemma mgr_inv_issue:
  assumes "mgr_inv m" "issue m u issued clk = (r, m')"
  shows "mgr_inv m'"
  using issue_cases[OF assms(2)] assms(1) mgr_inv_allocate by blast

lemma mgr_inv_mark_used:
  assumes "mgr_inv m"
  shows "mgr_inv (snd (mark_used m u sq))"
proof (cases "map_of (by_uid m) u")
  case None
  with assms show ?thesis by (simp add: mark_used_def)
next
  case (Some b)
  from assms have inv: "0 < validity m"
    "\<And>v b. map_of (by_uid m) v = Some b \<Longrightarrow>
        uid b = v \<and> seq_id b < counter m \<and> map_of (by_seq m) (seq_id b) = Some b"
    by (simp_all add: mgr_inv_iff)
  show ?thesis
  proof (cases "seq_id b = sq")
    case False
    with Some assms show ?thesis by (simp add: mark_used_def)
  next
    case True
    let ?ub = "\<lparr>uid = uid b, seq_id = seq_id b, issued_at = issued_at b,
                 expires_at = expires_at b, used = True\<rparr>"
    from Some True have m': "snd (mark_used m u sq)
        = m\<lparr>by_uid := AList.update u ?ub (by_uid m), by_seq := AList.update sq ?ub (by_seq m)\<rparr>"
      by (simp add: mark_used_def Let_def)
    show ?thesis
      unfolding mgr_inv_iff m'
    proof (intro conjI allI impI)
      show "0 < validity (m\<lparr>by_uid := AList.update u ?ub (by_uid m),
                            by_seq := AList.update sq ?ub (by_seq m)\<rparr>)"
        using inv(1) by simp
    next
      fix v b'
      assume s: "map_of (by_uid (m\<lparr>by_uid := AList.update u ?ub (by_uid m),
                            by_seq := AList.update sq ?ub (by_seq m)\<rparr>)) v = Some b'"
      show "uid b' = v"
        using s inv(2)[OF Some] inv(2)[of v b'] by (auto simp: update_conv' split: if_splits)
      show "seq_id b' < counter (m\<lparr>by_uid := AList.update u ?ub (by_uid m),
                            by_seq := AList.update sq ?ub (by_seq m)\<rparr>)"
        using s inv(2)[OF Some] inv(2)[of v b'] by (auto simp: update_conv' split: if_splits)
      show "map_of (by_seq (m\<lparr>by_uid := AList.update u ?ub (by_uid m),
                            by_seq := AList.update sq ?ub (by_seq m)\<rparr>)) (seq_id b') = Some b'"
      proof (cases "v = u")
        case True
        with s True \<open>seq_id b = sq\<close> show ?thesis by (auto simp: update_conv')
      next
        case False
        with s have old: "map_of (by_uid m) v = Some b'" by (simp add: update_conv')
        have "seq_id b' \<noteq> sq"
        proof
          assume "seq_id b' = sq"
          with inv(2)[OF old] inv(2)[OF Some] \<open>seq_id b = sq\<close> have "b' = b" by simp
          with inv(2)[OF old] inv(2)[OF Some] False show False by simp
        qed
        with inv(2)[OF old] show ?thesis by (simp add: update_conv')
      qed
    qed
  qed
qed

subsection \<open>Issuance\<close>

text \<open>
  C7, as stated, fails: a uid of one space is non-empty, and both calls of \<open>issue\<close> raise
  \<open>ValueError\<close> instead of returning a binding.
\<close>

theorem issue_blank_uid_counterexample:
  "'' '' \<noteq> [] \<and> fst (issue demo_mgr '' '' (Some demo_t0) demo_t0) = Inl ValueError
   \<and> fst (issue (snd (issue demo_mgr '' '' (Some demo_t0) demo_t0)) '' '' (Some demo_t0) demo_t0)
       = Inl ValueError"
  by (simp add: issue_def strip_def is_space_def)

text \<open>
  C7 (amended): for every uid that is not empty after stripping whitespace and every
  time \<open>t\<close> whose expiry \<open>t + validity\<close> is a representable datetime, \<open>issue\<close> returns a
  binding that is unused and unexpired at \<open>t\<close>, and a second call at \<open>t\<close> (or at any time
  up to the expiry) returns the same binding and leaves the manager, its counter
  included, as the first call left it.
\<close>

theorem issue_idempotent:
  assumes nb: "\<not> (u = [] \<or> strip u = [])"
    and v: "0 < validity m"
    and lo: "0 \<le> t + validity m" and hi: "t + validity m \<le> MAX_DT"
  shows "\<exists>b m1. issue m u (Some t) clk = (Inr b, m1)
           \<and> t \<le> expires_at b \<and> \<not> used b
           \<and> issue m1 u (Some t) clk2 = (Inr b, m1)
           \<and> counter (snd (issue m1 u (Some t) clk2)) = counter m1
           \<and> (\<forall>t2. t2 \<le> expires_at b \<longrightarrow> issue m1 u (Some t2) clk2 = (Inr b, m1))"
proof -
  let ?nb = "\<lparr>uid = u, seq_id = counter m, issued_at = t, expires_at = t + validity m, used = False\<rparr>"
  let ?m1 = "m\<lparr>counter := counter m + 1, by_uid := AList.update u ?nb (by_uid m),
               by_seq := AList.update (counter m) ?nb (by_seq m)\<rparr>"
  have again: "issue m1 u (Some t2) clk2 = (Inr b, m1)"
    if "map_of (by_uid m1) u = Some b" "\<not> used b" "t2 \<le> expires_at b" for m1 b t2
    using that nb by (simp add: issue_def is_expired_def)
  show ?thesis
  proof (cases "\<exists>b. map_of (by_uid m) u = Some b \<and> \<not> is_expired b (Some t) clk \<and> \<not> used b")
    case True
    then obtain b where b: "map_of (by_uid m) u = Some b" "\<not> is_expired b (Some t) clk" "\<not> used b"
      by blast
    with nb have first: "issue m u (Some t) clk = (Inr b, m)" by (simp add: issue_def)
    from b have le: "t \<le> expires_at b" by (simp add: is_expired_def)
    from again[OF b(1) b(3)] first le b(3) show ?thesis by auto
  next
    case False
    with nb have "issue m u (Some t) clk = allocate m u t"
      by (auto simp: issue_def split: option.splits)
    with allocate_ok[OF lo hi] have first: "issue m u (Some t) clk = (Inr ?nb, ?m1)" by simp
    have look: "map_of (by_uid ?m1) u = Some ?nb" by (simp add: update_conv')
    have nu: "\<not> used ?nb" by simp
    from v have le: "t \<le> expires_at ?nb" by simp
    from again[OF look nu] first le show ?thesis by auto
  qed
qed

lemma demo_mgr_issue_A:
  "issue demo_mgr ''A'' (Some demo_t0) 0 =
    (Inr \<lparr>uid = ''A'', seq_id = 1, issued_at = demo_t0, expires_at = demo_t0 + 1200000000, used = False\<rparr>,
     \<lparr>counter = 2, validity = 1200000000,
      by_uid = [(''A'', \<lparr>uid = ''A'', seq_id = 1, issued_at = demo_t0,
                         expires_at = demo_t0 + 1200000000, used = False\<rparr>)],
      by_seq = [(1, \<lparr>uid = ''A'', seq_id = 1, issued_at = demo_t0,
                      expires_at = demo_t0 + 1200000000, used = False\<rparr>)]\<rparr>)"
  by (simp add: issue_def allocate_def demo_mgr_def strip_def is_space_def MAX_DT_def demo_t0_def
      Let_def)

text \<open>The first issuance of the scenario satisfies the hypotheses.\<close>

theorem issue_idempotent_witness:
  "\<not> (''A'' = [] \<or> strip ''A'' = []) \<and> 0 < validity demo_mgr
   \<and> 0 \<le> demo_t0 + validity demo_mgr \<and> demo_t0 + validity demo_mgr \<le> MAX_DT
   \<and> seq_id (projr (fst (issue demo_mgr ''A'' (Some demo_t0) 0))) = 1
   \<and> issue (snd (issue demo_mgr ''A'' (Some demo_t0) 0)) ''A'' (Some demo_t0) 0
       = issue demo_mgr ''A'' (Some demo_t0) 0"
proof -
  have h: "\<not> (''A'' = [] \<or> strip ''A'' = [])" "0 < validity demo_mgr"
    "0 \<le> demo_t0 + validity demo_mgr" "demo_t0 + validity demo_mgr \<le> MAX_DT"
    by (simp_all add: strip_def is_space_def demo_mgr_def demo_t0_def MAX_DT_def)
  from issue_idempotent[OF h, of 0 0] h show ?thesis
    by (auto simp: demo_mgr_issue_A)
qed

lemma issue_new_binding:
  assumes "issue m u issued clk = (Inr b, m')" and "map_of (by_uid m) u \<noteq> Some b"
  shows "seq_id b = counter m \<and> counter m' = counter m + 1 \<and> \<not> used b
         \<and> map_of (by_uid m') u = Some b \<and> map_of (by_seq m') (seq_id b) = Some b"
proof -
  from issue_cases[OF assms(1)] assms(2)
  have "allocate m u (case issued of Some t \<Rightarrow> t | None \<Rightarrow> clk) = (Inr b, m')" by auto
  from allocate_cases[OF this] show ?thesis by (auto simp: update_conv')
qed

lemma issue_counter_mono:
  assumes "issue m u issued clk = (r, m')"
  shows "counter m \<le> counter m'"
  using issue_cases[OF assms]
proof (elim disjE conjE exE)
  assume "allocate m u (case issued of Some t \<Rightarrow> t | None \<Rightarrow> clk) = (r, m')"
  from allocate_cases[OF this] show ?thesis by auto
qed auto

lemma issue_stored_iff_unchanged:
  assumes inv: "mgr_inv m" and i: "issue m u issued clk = (Inr b, m')"
  shows "(map_of (by_uid m) u = Some b) = (m' = m)"
proof
  assume st: "map_of (by_uid m) u = Some b"
  with inv have lt: "seq_id b < counter m" by (simp add: mgr_inv_iff)
  from issue_cases[OF i] show "m' = m"
  proof (elim disjE conjE exE)
    assume "allocate m u (case issued of Some t \<Rightarrow> t | None \<Rightarrow> clk) = (Inr b, m')"
    from allocate_cases[OF this] lt show ?thesis by auto
  qed auto
next
  assume same: "m' = m"
  from issue_cases[OF i] show "map_of (by_uid m) u = Some b"
  proof (elim disjE conjE exE)
    assume "allocate m u (case issued of Some t \<Rightarrow> t | None \<Rightarrow> clk) = (Inr b, m')"
    from allocate_cases[OF this] have "counter m' = counter m + 1" by auto
    with same show ?thesis by simp
  qed auto
qed

lemma mgr_step_counter:
  assumes "mgr_step m c = (xs, m')"
  shows "counter m \<le> counter m'
         \<and> (xs = [] \<or> (xs = [counter m] \<and> counter m' = counter m + 1))"
proof (cases c)
  case (Issue u issued clk)
  obtain r m1 where i: "issue m u issued clk = (r, m1)" by (cases "issue m u issued clk")
  show ?thesis
  proof (cases r)
    case (Inl err)
    with issue_counter_mono[OF i] i assms Issue show ?thesis by auto
  next
    case (Inr b)
    show ?thesis
    proof (cases "map_of (by_uid m) u = Some b")
      case True
      with issue_counter_mono[OF i] i assms Issue Inr show ?thesis by auto
    next
      case False
      from i Inr have "issue m u issued clk = (Inr b, m1)" by simp
      from issue_new_binding[OF this False] i assms Issue Inr False show ?thesis by auto
    qed
  qed
next
  case (Validate u sq now clk)
  with assms show ?thesis by (auto simp: validate_def Let_def split: option.splits)
next
  case (MarkUsed u sq)
  with assms show ?thesis by (auto simp: mark_used_def Let_def split: option.splits)
qed

lemma allocated_sorted_gen:
  "allocated m cs = (ys, m2) \<Longrightarrow>
   counter m \<le> counter m2 \<and> sorted_wrt (<) ys
   \<and> list_all (\<lambda>y. counter m \<le> y \<and> y < counter m2) ys"
proof (induction cs arbitrary: m ys)
  case Nil
  then show ?case by simp
next
  case (Cons c cs)
  obtain xs m1 where st: "mgr_step m c = (xs, m1)" by (cases "mgr_step m c")
  obtain zs m3 where al: "allocated m1 cs = (zs, m3)" by (cases "allocated m1 cs")
  from Cons.prems st al have ys: "ys = xs @ zs" and m3: "m3 = m2" by simp_all
  from al m3 have al': "allocated m1 cs = (zs, m2)" by simp
  note IH = Cons.IH[OF al']
  from mgr_step_counter[OF st] IH ys show ?case
    by (auto simp: sorted_wrt_append list_all_iff)
qed

text \<open>
  C8: over any sequence of calls of the manager (issuing for any uids, validating,
  marking used), the identifiers newly allocated by \<open>issue\<close> are strictly increasing in
  the order of allocation, hence pairwise different, and each lies between the counter
  before the sequence and the counter after it. A call of \<open>issue\<close> that returns a binding
  other than the one already stored for the uid hands out the counter as identifier,
  advances the counter by one and stores the binding in both indexes; on a manager that
  satisfies the invariant, \<open>issue\<close> returns the stored binding exactly when it leaves the
  manager unchanged.
\<close>

theorem allocated_strictly_increasing:
  "sorted_wrt (<) (fst (allocated m cs)) \<and> distinct (fst (allocated m cs))
   \<and> list_all (\<lambda>y. counter m \<le> y \<and> y < counter (snd (allocated m cs))) (fst (allocated m cs))
   \<and> (\<forall>u issued clk b m'.
         issue m u issued clk = (Inr b, m') \<and> map_of (by_uid m) u \<noteq> Some b \<longrightarrow>
           fst (mgr_step m (Issue u issued clk)) = [seq_id b]
           \<and> seq_id b = counter m \<and> counter m' = counter m + 1
           \<and> map_of (by_uid m') u = Some b \<and> map_of (by_seq m') (seq_id b) = Some b)
   \<and> (\<forall>u issued clk b m'.
         mgr_inv m \<and> issue m u issued clk = (Inr b, m') \<longrightarrow>
           (map_of (by_uid m) u = Some b) = (m' = m))"
proof -
  obtain ys m2 where a: "allocated m cs = (ys, m2)" by (cases "allocated m cs")
  from allocated_sorted_gen[OF a] have s: "sorted_wrt (<) ys"
    and l: "list_all (\<lambda>y. counter m \<le> y \<and> y < counter m2) ys" by simp_all
  from s have d: "distinct ys" by (simp add: strict_sorted_iff)
  from a s d l have p1: "sorted_wrt (<) (fst (allocated m cs)) \<and> distinct (fst (allocated m cs))
   \<and> list_all (\<lambda>y. counter m \<le> y \<and> y < counter (snd (allocated m cs))) (fst (allocated m cs))"
    by simp
  have p2: "fst (mgr_step m (Issue u issued clk)) = [seq_id b]
           \<and> seq_id b = counter m \<and> counter m' = counter m + 1
           \<and> map_of (by_uid m') u = Some b \<and> map_of (by_seq m') (seq_id b) = Some b"
    if h: "issue m u issued clk = (Inr b, m') \<and> map_of (by_uid m) u \<noteq> Some b"
    for u issued clk b m'
  proof -
    from h have i: "issue m u issued clk = (Inr b, m')"
      and ns: "map_of (by_uid m) u \<noteq> Some b" by blast+
    from i ns have "fst (mgr_step m (Issue u issued clk)) = [seq_id b]" by simp
    with issue_new_binding[OF i ns] show ?thesis by blast
  qed
  have p3: "(map_of (by_uid m) u = Some b) = (m' = m)"
    if h: "mgr_inv m \<and> issue m u issued clk = (Inr b, m')" for u issued clk b m'
  proof -
    from h have "mgr_inv m" "issue m u issued clk = (Inr b, m')" by blast+
    then show ?thesis by (rule issue_stored_iff_unchanged)
  qed
  from p1 p2 p3 show ?thesis by blast
qed

lemma demo_allocated: "fst (allocated demo_mgr demo_mgr_ops) = [1, 2, 3, 4]"
  by (simp add: demo_mgr_ops_def demo_mgr_def issue_def allocate_def strip_def is_space_def
      is_expired_def mark_used_def validate_def MAX_DT_def demo_t0_def Let_def)

text \<open>Two uids, a repeated request, and re-issuance after use and after expiry: the
  identifiers allocated are 1, 2, 3 and 4.\<close>

theorem allocated_strictly_increasing_witness:
  "fst (allocated demo_mgr demo_mgr_ops) = [1, 2, 3, 4]
   \<and> sorted_wrt (<) [1, 2, 3, 4 :: int] \<and> distinct [1, 2, 3, 4 :: int]
   \<and> mgr_inv demo_mgr
   \<and> map_of (by_uid demo_mgr) ''A'' = None
   \<and> fst (mgr_step demo_mgr (Issue ''A'' (Some demo_t0) 0)) = [1]
   \<and> counter (snd (issue demo_mgr ''A'' (Some demo_t0) 0)) = counter demo_mgr + 1
   \<and> snd (issue demo_mgr ''A'' (Some demo_t0) 0) \<noteq> demo_mgr"
proof -
  let ?b = "\<lparr>uid = ''A'', seq_id = 1, issued_at = demo_t0,
             expires_at = demo_t0 + 1200000000, used = False\<rparr>"
  have inv: "mgr_inv demo_mgr" by (rule mgr_inv_init[OF demo_mgr_init])
  have none: "map_of (by_uid demo_mgr) ''A'' = None" by (simp add: demo_mgr_def)
  then have ns: "map_of (by_uid demo_mgr) ''A'' \<noteq> Some ?b" by simp
  note th = allocated_strictly_increasing[of demo_mgr demo_mgr_ops]
  note srt = th[THEN conjunct1]
  note dst = th[THEN conjunct2, THEN conjunct1]
  note new = th[THEN conjunct2, THEN conjunct2, THEN conjunct2, THEN conjunct1, rule_format,
      OF conjI[OF demo_mgr_issue_A ns]]
  note chg = th[THEN conjunct2, THEN conjunct2, THEN conjunct2, THEN conjunct2, rule_format,
      OF conjI[OF inv demo_mgr_issue_A]]
  from new have n1: "fst (mgr_step demo_mgr (Issue ''A'' (Some demo_t0) 0)) = [1]" by simp
  from new have n2: "counter (snd (issue demo_mgr ''A'' (Some demo_t0) 0)) = counter demo_mgr + 1"
    by (simp add: demo_mgr_issue_A)
  from chg none have n3: "snd (issue demo_mgr ''A'' (Some demo_t0) 0) \<noteq> demo_mgr"
    by (simp add: demo_mgr_issue_A)
  from srt dst have "sorted_wrt (<) [1, 2, 3, 4 :: int] \<and> distinct [1, 2, 3, 4 :: int]"
    by (simp add: demo_allocated)
  with n1 n2 n3 inv none show ?thesis by (simp add: demo_allocated)
qed

subsection \<open>Stale identifiers, and the scenario as witness\<close>

text \<open>
  C10: when a uid has a binding and \<open>issue\<close> allocates a fresh one for it (which it does
  only if the old one is expired or used), the by-seq index still stores the old
  binding under the old seq\_id, the uid now maps to the new binding, and \<open>validate\<close>
  for the uid with the old seq\_id returns \<open>SEQ_MISMATCH\<close>, at any time.
\<close>

theorem stale_seq_id_mismatch:
  assumes inv: "mgr_inv m"
    and old: "map_of (by_uid m) u = Some old"
    and iss: "issue m u issued clk = (Inr b, m')"
    and fresh: "counter m' \<noteq> counter m"
  shows "(is_expired old (Some (case issued of Some t \<Rightarrow> t | None \<Rightarrow> clk)) clk \<or> used old)
     \<and> seq_id b = counter m \<and> seq_id b \<noteq> seq_id old
     \<and> map_of (by_uid m') u = Some b
     \<and> map_of (by_seq m') (seq_id old) = Some old
     \<and> fst (validate m' u (seq_id old) now clk') = ''SEQ_MISMATCH''"
proof -
  let ?t0 = "case issued of Some t \<Rightarrow> t | None \<Rightarrow> clk"
  from inv old have o: "seq_id old < counter m" "map_of (by_seq m) (seq_id old) = Some old"
    by (simp_all add: mgr_inv_iff)
  from issue_cases[OF iss] fresh
  have ex: "\<forall>b. map_of (by_uid m) u = Some b \<longrightarrow> is_expired b (Some ?t0) clk \<or> used b"
    and al: "allocate m u ?t0 = (Inr b, m')"
    by auto
  let ?nb = "\<lparr>uid = u, seq_id = counter m, issued_at = ?t0, expires_at = ?t0 + validity m, used = False\<rparr>"
  from allocate_cases[OF al]
  have b: "b = ?nb"
    and m': "m' = m\<lparr>counter := counter m + 1, by_uid := AList.update u ?nb (by_uid m),
                    by_seq := AList.update (counter m) ?nb (by_seq m)\<rparr>"
    by auto
  from ex old have 1: "is_expired old (Some ?t0) clk \<or> used old" by blast
  from b have 2: "seq_id b = counter m" by simp
  with o have 3: "seq_id b \<noteq> seq_id old" by simp
  from b m' have 4: "map_of (by_uid m') u = Some b" by (simp add: update_conv')
  from m' o have 5: "map_of (by_seq m') (seq_id old) = Some old" by (simp add: update_conv')
  from 4 3 have 6: "fst (validate m' u (seq_id old) now clk') = ''SEQ_MISMATCH''"
    by (simp add: validate_def Let_def)
  from 1 2 3 4 5 6 show ?thesis by blast
qed

lemma demo_used_mgr_eq:
  "demo_used_mgr =
     \<lparr>counter = 2, validity = 1200000000,
      by_uid = [(''A'', \<lparr>uid = ''A'', seq_id = 1, issued_at = demo_t0,
                         expires_at = demo_t0 + 1200000000, used = True\<rparr>)],
      by_seq = [(1, \<lparr>uid = ''A'', seq_id = 1, issued_at = demo_t0,
                      expires_at = demo_t0 + 1200000000, used = True\<rparr>)]\<rparr>"
  by (simp add: demo_used_mgr_def demo_mgr_issue_A mark_used_def Let_def)

lemma demo_used_mgr_issue:
  "issue demo_used_mgr ''A'' (Some (demo_t0 + 60000000)) 0 =
    (Inr \<lparr>uid = ''A'', seq_id = 2, issued_at = demo_t0 + 60000000,
          expires_at = demo_t0 + 1260000000, used = False\<rparr>,
     \<lparr>counter = 3, validity = 1200000000,
      by_uid = [(''A'', \<lparr>uid = ''A'', seq_id = 2, issued_at = demo_t0 + 60000000,
                         expires_at = demo_t0 + 1260000000, used = False\<rparr>)],
      by_seq = [(1, \<lparr>uid = ''A'', seq_id = 1, issued_at = demo_t0,
                      expires_at = demo_t0 + 1200000000, used = True\<rparr>),
                (2, \<lparr>uid = ''A'', seq_id = 2, issued_at = demo_t0 + 60000000,
                      expires_at = demo_t0 + 1260000000, used = False\<rparr>)]\<rparr>)"
  by (simp add: demo_used_mgr_eq issue_def allocate_def strip_def is_space_def MAX_DT_def
      demo_t0_def is_expired_def Let_def)

text \<open>Re-issuance after use, in the scenario.\<close>

theorem stale_seq_id_mismatch_witness:
  "mgr_inv demo_used_mgr
   \<and> map_of (by_uid demo_used_mgr) ''A''
       = Some \<lparr>uid = ''A'', seq_id = 1, issued_at = demo_t0,
               expires_at = demo_t0 + 1200000000, used = True\<rparr>
   \<and> counter (snd (issue demo_used_mgr ''A'' (Some (demo_t0 + 60000000)) 0)) \<noteq> counter demo_used_mgr
   \<and> map_of (by_seq (snd (issue demo_used_mgr ''A'' (Some (demo_t0 + 60000000)) 0))) 1
       = Some \<lparr>uid = ''A'', seq_id = 1, issued_at = demo_t0,
               expires_at = demo_t0 + 1200000000, used = True\<rparr>
   \<and> fst (validate (snd (issue demo_used_mgr ''A'' (Some (demo_t0 + 60000000)) 0)) ''A'' 1
            (Some (demo_t0 + 60000000)) 0) = ''SEQ_MISMATCH''"
proof -
  have i: "mgr_inv demo_used_mgr"
    unfolding demo_used_mgr_def
    by (intro mgr_inv_mark_used mgr_inv_issue[OF mgr_inv_init[OF demo_mgr_init]]) (rule surjective_pairing)
  have o: "map_of (by_uid demo_used_mgr) ''A''
       = Some \<lparr>uid = ''A'', seq_id = 1, issued_at = demo_t0,
               expires_at = demo_t0 + 1200000000, used = True\<rparr>"
    by (simp add: demo_used_mgr_eq)
  have f: "counter (snd (issue demo_used_mgr ''A'' (Some (demo_t0 + 60000000)) 0)) \<noteq> counter demo_used_mgr"
    by (simp add: demo_used_mgr_issue) (simp add: demo_used_mgr_eq)
  from stale_seq_id_mismatch[OF i o demo_used_mgr_issue, of "Some (demo_t0 + 60000000)" 0] f i o
  show ?thesis by (simp add: demo_used_mgr_issue)
qed

lemma demo_bound_state: "current_state demo_bound ''A'' = SEQ_BOUND"
  by (simp add: demo_bound_eq current_state_def)

lemma demo_bound_valid:
  "fst (validate (seq demo_bound) ''A'' 1 None (dt_seq (demo_wall (demo_t0 + 60000000)))) = ''OK''"
  by (simp add: demo_bound_eq validate_def is_expired_def demo_wall_def Let_def)

lemma demo_bound_mismatch:
  "fst (validate (seq demo_bound) ''A'' 2 None (dt_seq (demo_wall (demo_t0 + 60000000))))
     = ''SEQ_MISMATCH''"
  by (simp add: demo_bound_eq validate_def Let_def)

lemma demo_bad_thresholds_raise: "convert_thresholds demo_bad_thresholds = Inl ValueError"
  by (simp add: demo_bad_thresholds_def convert_thresholds_def dict_get_def)

lemma demo_default_thresholds: "convert_thresholds None = Inr (Finite 99.0, 8, True)"
  by (simp add: convert_thresholds_def dict_get_def)

text \<open>An invalid identity with failing measurements, a threshold that cannot be
  converted, a failed threshold and an accepted call all occur.\<close>

theorem xrf_check_order_witness:
  "current_state demo_bound ''A'' = SEQ_BOUND
   \<and> flt_less (Finite 50) (Finite 99.0)
   \<and> (\<exists>d. fst (handle_xrf_report_trace demo_bound ''A'' 2 (Finite 50) 1 False ''PC01'' None None
               (demo_wall (demo_t0 + 60000000))) = Inr d
          \<and> decision d = REJECT \<and> reason d = ''SEQ_INVALID:SEQ_MISMATCH'')
   \<and> handle_xrf_report_trace demo_bound ''A'' 1 (Finite 99.6) 10 True ''PC01'' None
        demo_bad_thresholds (demo_wall (demo_t0 + 60000000)) = (Inl ValueError, [demo_bound])
   \<and> (\<exists>d. fst (handle_xrf_report_trace demo_bound ''A'' 1 (Finite 98.5) 10 True ''PC01'' None None
               (demo_wall (demo_t0 + 60000000))) = Inr d
          \<and> decision d = REJECT \<and> reason d = ''SANITY_FAIL:PURITY_TOO_LOW'')
   \<and> (\<exists>b e2 e3.
         snd (handle_xrf_report_trace demo_bound ''A'' 1 (Finite 99.6) 10 True ''PC01'' None None
               (demo_wall (demo_t0 + 60000000))) = [demo_bound, e2, e3]
         \<and> map_of (by_uid (seq demo_bound)) ''A'' = Some b \<and> \<not> used b
         \<and> current_state e2 ''A'' = XRF_VERIFIED
         \<and> map_of (by_uid (seq e2)) ''A'' = Some b
         \<and> current_state e3 ''A'' = XRF_VERIFIED
         \<and> map_of (by_uid (seq e3)) ''A'' = Some (b\<lparr>used := True\<rparr>))"
proof -
  let ?w = "demo_wall (demo_t0 + 60000000)"
  have low: "flt_less (Finite 50) (Finite 99.0)" by simp
  have bad: "fst (validate (seq demo_bound) ''A'' 2 None (dt_seq ?w)) \<noteq> ''OK''"
    by (simp add: demo_bound_mismatch)
  have acc: "\<exists>d. fst (handle_xrf_report_trace demo_bound ''A'' 1 (Finite 99.6) 10 True ''PC01''
         None None ?w) = Inr d \<and> decision d = ACCEPT"
    using demo_first_eq by (simp add: demo_first_def handle_xrf_report_def split_beta)
  note t2 = xrf_check_order[where e = demo_bound and u = "''A''" and sq = 2
      and w = ?w and p = "Finite 50" and sd = 1 and c = False
      and pc = "''PC01''" and ts = None and th = None,
      THEN conjunct2, THEN conjunct1, rule_format, OF conjI[OF demo_bound_state bad]]
  note t3 = xrf_check_order[where e = demo_bound and u = "''A''" and sq = 1
      and w = ?w and p = "Finite 99.6" and sd = 10 and c = True
      and pc = "''PC01''" and ts = None and th = demo_bad_thresholds,
      THEN conjunct2, THEN conjunct2, THEN conjunct1, rule_format,
      OF conjI[OF demo_bound_state conjI[OF demo_bound_valid demo_bad_thresholds_raise]]]
  have fail: "flt_less (Finite 98.5) (Finite 99.0) \<or> (10::int) < 8 \<or> (True \<and> \<not> True)" by simp
  note t4 = xrf_check_order[where e = demo_bound and u = "''A''" and sq = 1
      and w = ?w and p = "Finite 98.5" and sd = 10 and c = True
      and pc = "''PC01''" and ts = None and th = None,
      THEN conjunct2, THEN conjunct2, THEN conjunct2, THEN conjunct1, rule_format,
      OF conjI[OF demo_bound_state conjI[OF demo_bound_valid conjI[OF demo_default_thresholds fail]]]]
  note t5 = xrf_check_order[where e = demo_bound and u = "''A''" and sq = 1
      and w = ?w and p = "Finite 99.6" and sd = 10 and c = True
      and pc = "''PC01''" and ts = None and th = None,
      THEN conjunct2, THEN conjunct2, THEN conjunct2, THEN conjunct2, rule_format, OF acc]
  from t2 have r2: "\<exists>d. fst (handle_xrf_report_trace demo_bound ''A'' 2 (Finite 50) 1 False ''PC01''
               None None ?w) = Inr d
          \<and> decision d = REJECT \<and> reason d = ''SEQ_INVALID:SEQ_MISMATCH''"
    by (simp add: demo_bound_mismatch)
  from t4 have r4: "\<exists>d. fst (handle_xrf_report_trace demo_bound ''A'' 1 (Finite 98.5) 10 True ''PC01''
               None None ?w) = Inr d
          \<and> decision d = REJECT \<and> reason d = ''SANITY_FAIL:PURITY_TOO_LOW''"
    by simp
  from t5 have r5: "\<exists>b e2 e3.
         snd (handle_xrf_report_trace demo_bound ''A'' 1 (Finite 99.6) 10 True ''PC01'' None None
               ?w) = [demo_bound, e2, e3]
         \<and> map_of (by_uid (seq demo_bound)) ''A'' = Some b \<and> \<not> used b
         \<and> current_state e2 ''A'' = XRF_VERIFIED
         \<and> map_of (by_uid (seq e2)) ''A'' = Some b
         \<and> current_state e3 ''A'' = XRF_VERIFIED
         \<and> map_of (by_uid (seq e3)) ''A'' = Some (b\<lparr>used := True\<rparr>)"
    by blast
  from demo_bound_state low r2 t3 r4 r5 show ?thesis by blast
qed

lemma demo_purity_step:
  "step demo_bound (XrfReport ''A'' 1 (Finite 98.5) 10 True ''PC01'' None None)
        (demo_wall (demo_t0 + 60000000))
    = (Inr (reject_simple ''A'' SEQ_BOUND XRF_REPORT_ACCEPTED ''SANITY_FAIL:PURITY_TOO_LOW''
              [(''purity'', DFloat (Finite 98.5)), (''purity_min'', DFloat (Finite 99.0)),
               (''pc_id'', DStr ''PC01'')] (demo_wall (demo_t0 + 60000000))),
       demo_bound)"
  by (simp add: demo_bound_eq handle_xrf_report_def handle_xrf_report_trace_def
      get_fsm_def demo_wall_def validate_def is_expired_def
      convert_thresholds_def dict_get_def
      demo_t0_def Let_def reject_simple_def ts_or_now_def)

lemma demo_bad_thresholds_step:
  "step demo_bound (XrfReport ''A'' 1 (Finite 99.6) 10 True ''PC01'' None demo_bad_thresholds)
        (demo_wall (demo_t0 + 60000000))
    = (Inl ValueError, demo_bound)"
  by (simp add: demo_bound_eq handle_xrf_report_def handle_xrf_report_trace_def
      get_fsm_def demo_wall_def validate_def is_expired_def
      demo_bad_thresholds_def convert_thresholds_def dict_get_def
      demo_t0_def Let_def ts_or_now_def)

text \<open>The purity scenario of the specification (98.5 against a minimum of 99.0), and a
  report whose thresholds hold the string \<open>n/a\<close> as minimum purity.\<close>

theorem reject_leaves_state_witness:
  "decision (reject_simple ''A'' SEQ_BOUND XRF_REPORT_ACCEPTED ''SANITY_FAIL:PURITY_TOO_LOW''
              [(''purity'', DFloat (Finite 98.5)), (''purity_min'', DFloat (Finite 99.0)),
               (''pc_id'', DStr ''PC01'')] (demo_wall (demo_t0 + 60000000))) = REJECT
   \<and> fst (step demo_bound (XrfReport ''A'' 1 (Finite 98.5) 10 True ''PC01'' None None)
            (demo_wall (demo_t0 + 60000000)))
      = Inr (reject_simple ''A'' SEQ_BOUND XRF_REPORT_ACCEPTED ''SANITY_FAIL:PURITY_TOO_LOW''
              [(''purity'', DFloat (Finite 98.5)), (''purity_min'', DFloat (Finite 99.0)),
               (''pc_id'', DStr ''PC01'')] (demo_wall (demo_t0 + 60000000)))
   \<and> current_state demo_bound ''A'' = SEQ_BOUND
   \<and> fst (validate (seq demo_bound) ''A'' 1 None (dt_seq (demo_wall (demo_t0 + 60000000)))) = ''OK''
   \<and> step demo_bound (XrfReport ''A'' 1 (Finite 99.6) 10 True ''PC01'' None demo_bad_thresholds)
        (demo_wall (demo_t0 + 60000000)) = (Inl ValueError, demo_bound)
   \<and> convert_thresholds demo_bad_thresholds = Inl ValueError"
proof -
  let ?d = "reject_simple ''A'' SEQ_BOUND XRF_REPORT_ACCEPTED ''SANITY_FAIL:PURITY_TOO_LOW''
              [(''purity'', DFloat (Finite 98.5)), (''purity_min'', DFloat (Finite 99.0)),
               (''pc_id'', DStr ''PC01'')] (demo_wall (demo_t0 + 60000000))"
  have r: "reason ?d \<in> {''SANITY_FAIL:PURITY_TOO_LOW'', ''SANITY_FAIL:SCAN_TOO_SHORT'',
                ''SANITY_FAIL:CONTACT_NOT_OK''}"
    by (simp add: reject_simple_def)
  have d: "decision ?d = REJECT" by (simp add: reject_simple_def)
  note s = reject_leaves_state[OF demo_purity_step, THEN conjunct2, THEN conjunct2,
      THEN conjunct2, rule_format, OF conjI[OF refl conjI[OF refl r]]]
  note b = reject_leaves_state[OF demo_bad_thresholds_step, THEN conjunct2, THEN conjunct1,
      rule_format, of ValueError]
  from b have cv: "convert_thresholds demo_bad_thresholds = Inl ValueError" by simp
  from s have "current_state demo_bound ''A'' = SEQ_BOUND
     \<and> fst (validate (seq demo_bound) ''A'' 1 None (dt_seq (demo_wall (demo_t0 + 60000000)))) = ''OK''"
    by simp
  with d demo_purity_step demo_bad_thresholds_step cv show ?thesis by simp
qed

lemma demo_run:
  "accepted_events ''A'' (fst (run (Engine_init demo_mgr) demo_ops))
     = [RFID_READ, SEQ_ASSIGNED, XRF_REPORT_ACCEPTED]"
  by (simp add: demo_ops_def handle_rfid_read_eq handle_slot_motion_eq handle_storage_confirmed_eq
      handle_seq_request_def handle_xrf_report_def handle_xrf_report_trace_def
      get_fsm_def set_state_def current_state_def Engine_init_def demo_mgr_def demo_wall_def
      fsm_apply_def ALLOWED_def NON_TRANSITION_EVENTS_def issue_def allocate_def strip_def
      is_space_def validate_def is_expired_def mark_used_def
      demo_bad_thresholds_def convert_thresholds_def dict_get_def
      demo_t0_def MAX_DT_def Let_def accept_def reject_simple_def ts_or_now_def)

text \<open>A run with rejected, repeated and out-of-order calls in between.\<close>

theorem accepted_events_prefix_witness:
  "accepted_events ''A'' (fst (run (Engine_init demo_mgr) demo_ops))
     = [RFID_READ, SEQ_ASSIGNED, XRF_REPORT_ACCEPTED]
   \<and> [RFID_READ, SEQ_ASSIGNED, XRF_REPORT_ACCEPTED] = take 3 happy_events
   \<and> current_state (snd (run (Engine_init demo_mgr) demo_ops)) ''A'' = XRF_VERIFIED"
proof -
  have "run (Engine_init demo_mgr) demo_ops
        = (fst (run (Engine_init demo_mgr) demo_ops), snd (run (Engine_init demo_mgr) demo_ops))"
    by simp
  from accepted_events_prefix[OF this, of "''A''"] show ?thesis
    by (simp add: demo_run happy_states_def happy_events_def)
qed

subsection \<open>When issuance raises, and the invariant along the runs of the engine\<close>

lemma issue_raises_iff:
  "fst (issue m u issued clk) = Inl err \<longleftrightarrow>
     (err = ValueError \<and> (u = [] \<or> strip u = []))
   \<or> (err = OverflowError \<and> \<not> (u = [] \<or> strip u = [])
       \<and> (\<forall>b. map_of (by_uid m) u = Some b \<longrightarrow>
             is_expired b (Some (case issued of Some t \<Rightarrow> t | None \<Rightarrow> clk)) clk \<or> used b)
       \<and> ((case issued of Some t \<Rightarrow> t | None \<Rightarrow> clk) + validity m < 0
          \<or> (case issued of Some t \<Rightarrow> t | None \<Rightarrow> clk) + validity m > MAX_DT))"
  by (cases "map_of (by_uid m) u")
     (auto simp: issue_def allocate_def Let_def split: if_splits)

lemma step_seq:
  assumes "step e c w = (r, e')"
  shows "seq e' = seq e
       \<or> (\<exists>u issued clk. seq e' = snd (issue (seq e) u issued clk))
       \<or> (\<exists>u sq. seq e' = snd (mark_used (seq e) u sq))"
proof (cases c)
  case (RfidRead u g ts)
  with assms show ?thesis by (auto simp: handle_rfid_read_eq seq_set_state split: if_splits)
next
  case (SeqRequest u ts)
  with assms have h: "handle_seq_request e u ts w = (r, e')" by simp
  show ?thesis
  proof (cases "current_state e u = RFID_VERIFIED")
    case False
    with h show ?thesis by (auto simp: handle_seq_request_gate seq_set_state)
  next
    case rv: True
    obtain x m' where iss: "issue (seq e) u None (dt_seq w) = (x, m')"
      by (cases "issue (seq e) u None (dt_seq w)")
    then have m': "m' = snd (issue (seq e) u None (dt_seq w))" by simp
    show ?thesis
    proof (cases x)
      case (Inl err)
      with handle_seq_request_raise[OF rv, of w err m' ts] iss h have "seq e' = m'" by auto
      with m' show ?thesis by blast
    next
      case (Inr b)
      with handle_seq_request_issue[OF rv, of w b m' ts] iss h have "seq e' = m'" by auto
      with m' show ?thesis by blast
    qed
  qed
next
  case (XrfReport u sq p sd cc pc ts th)
  with assms have "handle_xrf_report e u sq p sd cc pc ts th w = (r, e')" by simp
  from xrf_report_outcome[OF this] show ?thesis by blast
next
  case (SlotAssigned u sl ts)
  with assms show ?thesis by (auto simp: handle_slot_assigned_eq seq_set_state split: if_splits)
next
  case (StorageConfirmed u sl ts)
  with assms show ?thesis by (auto simp: handle_storage_confirmed_eq seq_set_state split: if_splits)
next
  case (SlotMotion u sl ts)
  with assms show ?thesis by (auto simp: handle_slot_motion_eq seq_set_state)
qed

lemma mgr_inv_step:
  assumes "mgr_inv (seq e)" "step e c w = (r, e')"
  shows "mgr_inv (seq e')"
  using step_seq[OF assms(2)] assms(1)
  by (auto intro: mgr_inv_mark_used mgr_inv_issue[OF _ surjective_pairing])

lemma mgr_inv_run:
  "mgr_inv (seq e) \<Longrightarrow> run e cs = (rs, e') \<Longrightarrow> mgr_inv (seq e')"
proof (induction cs arbitrary: e rs)
  case Nil
  then show ?case by simp
next
  case (Cons a cs)
  obtain c w where a: "a = (c, w)" by (cases a)
  obtain r e1 where st: "step e c w = (r, e1)" by (cases "step e c w")
  obtain rs' e2 where rn: "run e1 cs = (rs', e2)" by (cases "run e1 cs")
  from Cons.prems(2) a st rn have "e2 = e'" by simp
  with rn have "run e1 cs = (rs', e')" by simp
  from Cons.IH[OF mgr_inv_step[OF Cons.prems(1) st] this] show ?case .
qed

end
